theory Spec2Isabelle
  imports Main "HOL-Library.Char_ord" "HOL-Library.List_Lexorder" "HOL-Library.Product_Lexorder"
begin

section \<open>The relational store\<close>

text \<open>
  The tables of \<^verbatim>\<open>CREATE_TABLES_SQL\<close> (src/interface.py). A table is the list of its
  rows in rowid order; a nullable column is an \<open>option\<close>. Python integers are
  unbounded, so they are \<open>int\<close>; a value bound to an \<^verbatim>\<open>INSERT\<close> must fit SQLite's signed
  64-bit \<^verbatim>\<open>INTEGER\<close> (\<open>storable\<close> below). Ids are rowids the store gave out.
  \<^verbatim>\<open>AUTOINCREMENT\<close> keeps, per table, the largest rowid ever used (\<^verbatim>\<open>sqlite_sequence\<close>);
  these counters are part of the store, so a rollback restores them too.
\<close>

record menu_item_row =
  mi_id :: int
  mi_name :: string
  mi_category :: string
  mi_price :: int
  mi_image_path :: "string option"
  mi_is_active :: int

record order_row =
  o_id :: int
  o_customer_name :: "string option"
  o_phone :: "string option"
  o_total :: int
  o_created_at :: string

record order_item_row =
  oi_id :: int
  oi_order_id :: int
  oi_item_id :: int
  oi_qty :: int
  oi_line_total :: int

record customer_row =
  c_id :: int
  c_name :: string
  c_phone :: "string option"
  c_email :: "string option"

record room_row =
  r_id :: int
  r_room_no :: string
  r_room_type :: string
  r_price_per_night :: int
  r_is_active :: int

record booking_row =
  b_id :: int
  b_customer_id :: int
  b_room_id :: int
  b_check_in :: string
  b_check_out :: string
  b_nights :: int
  b_total :: int
  b_created_at :: string
  b_status :: string

record ticket_row =
  tk_id :: int
  tk_customer_id :: "int option"
  tk_category :: "string option"
  tk_subject :: string
  tk_message :: "string option"
  tk_status :: string
  tk_created_at :: string

record store =
  menu_items :: "menu_item_row list"
  orders :: "order_row list"
  order_items :: "order_item_row list"
  customers :: "customer_row list"
  rooms :: "room_row list"
  bookings :: "booking_row list"
  tickets :: "ticket_row list"
  seq_orders :: int
  seq_order_items :: int
  seq_customers :: int
  seq_bookings :: int
  seq_tickets :: int

text \<open>
  The exceptions the modelled code raises. \<open>MenuItemNotFound i\<close> is
  \<^verbatim>\<open>ValueError(f"Menu item id {i} not found")\<close>, \<open>CheckoutNotAfterCheckin\<close> is
  \<^verbatim>\<open>ValueError("Check-out must be after check-in")\<close>, \<open>RoomNotFound\<close> is
  \<^verbatim>\<open>ValueError("Room not found")\<close>, \<open>SubjectRequired\<close> is
  \<^verbatim>\<open>ValueError("Subject is required")\<close>, \<open>InvalidIsoformat s\<close> is the \<^verbatim>\<open>ValueError\<close> of
  \<^verbatim>\<open>date.fromisoformat(s)\<close>. \<open>OverflowError\<close> is Python's \<^verbatim>\<open>OverflowError\<close>, which \<^verbatim>\<open>sqlite3\<close>
  raises when it binds an integer outside the 64-bit range. \<open>IntegrityError\<close> is \<^verbatim>\<open>sqlite3.IntegrityError\<close> (a constraint
  of the schema refused the statement) and \<open>OperationalError\<close> is any other failure of
  the store (I/O, lock). The constraints of the schema are part of every \<^verbatim>\<open>INSERT\<close>
  below; a failure of the store for a reason outside the schema is modelled at one
  statement, the \<^verbatim>\<open>INSERT\<close> of \<^verbatim>\<open>create_booking\<close>, as an input of the function (which
  there also stands for a booking total that is not storable).
\<close>

datatype error =
    MenuItemNotFound int
  | CheckoutNotAfterCheckin
  | RoomNotFound
  | SubjectRequired
  | InvalidIsoformat string
  | OverflowError
  | IntegrityError string
  | OperationalError string

text \<open>The rowid an \<^verbatim>\<open>INTEGER PRIMARY KEY AUTOINCREMENT\<close> column gives a new row: one more
  than the largest rowid the table holds or ever held.\<close>

definition next_rowid :: "int \<Rightarrow> int list \<Rightarrow> int" where
  "next_rowid seq ids = fold max ids (max seq 0) + 1"

text \<open>The integers \<^verbatim>\<open>sqlite3\<close> can bind to a statement: those of SQLite's signed 64-bit
  \<^verbatim>\<open>INTEGER\<close>. For any other Python integer \<^verbatim>\<open>cur.execute\<close> raises \<^verbatim>\<open>OverflowError\<close>
  ("Python int too large to convert to SQLite INTEGER") before the statement runs.\<close>

definition storable :: "int \<Rightarrow> bool" where
  "storable v = (- (2 ^ 63) \<le> v \<and> v \<le> 2 ^ 63 - 1)"

section \<open>Order Ledger: \<^verbatim>\<open>OrderRepo.create_order\<close>\<close>

text \<open>\<^verbatim>\<open>SELECT price FROM menu_items WHERE id = ?\<close> followed by \<^verbatim>\<open>fetchone()\<close>. The query
  has no condition on \<^verbatim>\<open>is_active\<close>.\<close>

definition select_price :: "menu_item_row list \<Rightarrow> int \<Rightarrow> int option" where
  "select_price ms item_id = map_option mi_price (find (\<lambda>r. mi_id r = item_id) ms)"

text \<open>The first loop of \<^verbatim>\<open>create_order\<close>, over \<^verbatim>\<open>cart.items()\<close>: it only reads
  (\<open>tot\<close> is the source's \<^verbatim>\<open>total\<close>). The
  cart is a \<^verbatim>\<open>Dict[int, int]\<close>, here the list of its items in the dictionary's order. An
  item id is an id of the store, so binding it to the \<^verbatim>\<open>SELECT\<close> is not modelled as a
  source of failure.\<close>

fun price_cart ::
  "menu_item_row list \<Rightarrow> (int \<times> int) list \<Rightarrow> int \<Rightarrow> (int \<times> int \<times> int) list
     \<Rightarrow> error + (int \<times> (int \<times> int \<times> int) list)" where
  "price_cart ms [] tot items = Inr (tot, items)"
| "price_cart ms ((item_id, qty) # rest) tot items =
     (case select_price ms item_id of
        None \<Rightarrow> Inl (MenuItemNotFound item_id)
      | Some price \<Rightarrow>
          (let line_total = price * qty
           in price_cart ms rest (tot + line_total) (items @ [(item_id, qty, line_total)])))"

text \<open>\<^verbatim>\<open>INSERT INTO orders(customer_name, phone, total, created_at)\<close>; returns the store
  inside the transaction and \<^verbatim>\<open>cur.lastrowid\<close>. The total is a Python integer and must
  be storable. All four values are non-null, so the table's \<^verbatim>\<open>NOT NULL\<close> constraints
  hold.\<close>

definition insert_order ::
  "store \<Rightarrow> string \<Rightarrow> string \<Rightarrow> int \<Rightarrow> string \<Rightarrow> error + (store \<times> int)" where
  "insert_order db customer_name phone tot now =
     (if \<not> storable tot then Inl OverflowError
      else
        (let new_id = next_rowid (seq_orders db) (map o_id (orders db))
         in Inr (db\<lparr>orders := orders db @
                      [\<lparr>o_id = new_id, o_customer_name = Some customer_name, o_phone = Some phone,
                        o_total = tot, o_created_at = now\<rparr>],
                    seq_orders := new_id\<rparr>, new_id)))"

text \<open>\<^verbatim>\<open>INSERT INTO order_items(order_id, item_id, qty, line_total)\<close>. The quantity and
  the line total are Python integers and must be storable (\<^verbatim>\<open>order_id\<close> is
  \<^verbatim>\<open>cur.lastrowid\<close> and \<^verbatim>\<open>item_id\<close> the id of a row the first loop found); the
  statement then runs under \<^verbatim>\<open>CHECK(qty >= 1)\<close> and the two foreign keys
  (\<^verbatim>\<open>PRAGMA foreign_keys = ON\<close>).\<close>

definition insert_order_item :: "store \<Rightarrow> int \<Rightarrow> int \<Rightarrow> int \<Rightarrow> int \<Rightarrow> error + store" where
  "insert_order_item db order_id item_id qty line_total =
     (if \<not> storable qty \<or> \<not> storable line_total then Inl OverflowError
      else if \<not> 1 \<le> qty then Inl (IntegrityError ''CHECK constraint failed: qty >= 1'')
      else if order_id \<notin> set (map o_id (orders db)) \<or> item_id \<notin> set (map mi_id (menu_items db))
        then Inl (IntegrityError ''FOREIGN KEY constraint failed'')
      else
        (let new_id = next_rowid (seq_order_items db) (map oi_id (order_items db))
         in Inr (db\<lparr>order_items := order_items db @
                      [\<lparr>oi_id = new_id, oi_order_id = order_id, oi_item_id = item_id,
                        oi_qty = qty, oi_line_total = line_total\<rparr>],
                    seq_order_items := new_id\<rparr>)))"

text \<open>The second loop of \<^verbatim>\<open>create_order\<close>, over \<^verbatim>\<open>items\<close>.\<close>

fun insert_items :: "store \<Rightarrow> int \<Rightarrow> (int \<times> int \<times> int) list \<Rightarrow> error + store" where
  "insert_items db order_id [] = Inr db"
| "insert_items db order_id ((item_id, qty, line_total) # rest) =
     (case insert_order_item db order_id item_id qty line_total of
        Inl e \<Rightarrow> Inl e
      | Inr db' \<Rightarrow> insert_items db' order_id rest)"

text \<open>
  \<^verbatim>\<open>OrderRepo.create_order(customer_name, phone, cart)\<close>. \<open>db\<close> is the committed store the
  connection opens and \<open>now\<close> the timestamp \<^verbatim>\<open>dt.datetime.now().isoformat(...)\<close>. The result
  is the committed store after the call and the outcome. An exception leaves the
  \<^verbatim>\<open>try\<close> block through \<^verbatim>\<open>finally: conn.close()\<close> without \<^verbatim>\<open>conn.commit()\<close>, which
  discards the transaction: the committed store is \<open>db\<close> again.
\<close>

definition create_order ::
  "store \<Rightarrow> string \<Rightarrow> string \<Rightarrow> string \<Rightarrow> (int \<times> int) list \<Rightarrow> store \<times> (error + int)" where
  "create_order db now customer_name phone cart =
     (case price_cart (menu_items db) cart 0 [] of
        Inl e \<Rightarrow> (db, Inl e)
      | Inr (tot, items) \<Rightarrow>
          (case insert_order db customer_name phone tot now of
             Inl e \<Rightarrow> (db, Inl e)
           | Inr (tx, order_id) \<Rightarrow>
               (case insert_items tx order_id items of
                  Inl e \<Rightarrow> (db, Inl e)
                | Inr tx' \<Rightarrow> (tx', Inr order_id))))"

section \<open>SQLite's \<^verbatim>\<open>LIKE\<close> and the scan of a table\<close>

text \<open>
  Strings are lists of characters with codes below 256. \<^verbatim>\<open>LIKE\<close> is SQLite's: \<^verbatim>\<open>%\<close>
  stands for any run of characters, \<^verbatim>\<open>_\<close> for any one character, and the ASCII letters
  match without regard to case (\<^verbatim>\<open>PRAGMA case_sensitive_like\<close> is never set by the
  program). SQLite compares the pattern and the text as C strings, so each ends at its
  first U+0000 (\<open>c_string\<close>). A pattern of more than 50000 bytes of UTF-8 makes the
  \<^verbatim>\<open>LIKE\<close> function fail ("LIKE or GLOB pattern too complex"), whatever the text, even
  \<^verbatim>\<open>NULL\<close>; \<^verbatim>\<open>sqlite3\<close> raises it as \<^verbatim>\<open>OperationalError\<close>.
\<close>

definition ascii_lower :: "char \<Rightarrow> char" where
  "ascii_lower c =
     (if CHR ''A'' \<le> c \<and> c \<le> CHR ''Z'' then char_of (of_char c + (32::nat)) else c)"

fun like_match :: "string \<Rightarrow> string \<Rightarrow> bool" where
  "like_match [] [] = True"
| "like_match [] (c # cs) = False"
| "like_match (p # ps) [] = (p = CHR ''%'' \<and> like_match ps [])"
| "like_match (p # ps) (c # cs) =
     (if p = CHR ''%'' then like_match ps (c # cs) \<or> like_match (p # ps) cs
      else if p = CHR ''_'' then like_match ps cs
      else ascii_lower p = ascii_lower c \<and> like_match ps cs)"

definition c_string :: "string \<Rightarrow> string" where
  "c_string v = takeWhile (\<lambda>c. c \<noteq> CHR 0x00) v"

definition sql_like :: "string \<Rightarrow> string \<Rightarrow> bool" where
  "sql_like pattern v = like_match (c_string pattern) (c_string v)"

definition utf8_length :: "string \<Rightarrow> nat" where
  "utf8_length v = sum_list (map (\<lambda>c. if of_char c < (128::nat) then 1 else 2) v)"

definition like_too_long :: "string \<Rightarrow> bool" where
  "like_too_long pattern = (50000 < utf8_length pattern)"

definition pattern_too_complex :: error where
  "pattern_too_complex = OperationalError ''LIKE or GLOB pattern too complex''"

text \<open>The f-string \<^verbatim>\<open>f"%{v}%"\<close>.\<close>

definition wrap_wildcards :: "string \<Rightarrow> string" where
  "wrap_wildcards v = ''%'' @ v @ ''%''"

text \<open>The scan of a table under a \<^verbatim>\<open>WHERE\<close> clause: the rows for which the clause is
  true, in scan order; an error raised while the clause is evaluated on a row ends the
  statement.\<close>

fun scan_where :: "('r \<Rightarrow> error + bool) \<Rightarrow> 'r list \<Rightarrow> error + 'r list" where
  "scan_where w [] = Inr []"
| "scan_where w (r # rs) =
     (case w r of
        Inl e \<Rightarrow> Inl e
      | Inr b \<Rightarrow>
          (case scan_where w rs of
             Inl e \<Rightarrow> Inl e
           | Inr kept \<Rightarrow> Inr (if b then r # kept else kept)))"

section \<open>Menu Catalog: \<^verbatim>\<open>MenuRepo.list_items\<close>\<close>

text \<open>
  The \<^verbatim>\<open>WHERE\<close> clause \<^verbatim>\<open>MenuRepo.list_items(category, search)\<close> builds, on one row. Only
  rows with \<^verbatim>\<open>is_active = 1\<close> are listed. The terms are conjoined and a false term ends
  the evaluation; the order in which SQLite evaluates them decides when an over-long
  pattern is met. With a category term the query is answered by a walk of the index on
  \<^verbatim>\<open>name\<close> (which gives the order asked for), and the \<^verbatim>\<open>LIKE\<close> term, which that index
  covers, is evaluated first; without one the table is scanned and the terms are
  evaluated as written, \<^verbatim>\<open>is_active = 1\<close> first.
\<close>

definition category_given :: "string option \<Rightarrow> bool" where
  "category_given category =
     (case category of None \<Rightarrow> False | Some c \<Rightarrow> c \<noteq> [] \<and> c \<noteq> ''All'')"

definition item_where :: "string option \<Rightarrow> string \<Rightarrow> menu_item_row \<Rightarrow> error + bool" where
  "item_where category search r =
     (if category_given category then
        (if search \<noteq> [] \<and> like_too_long (wrap_wildcards search) then Inl pattern_too_complex
         else if search \<noteq> [] \<and> \<not> sql_like (wrap_wildcards search) (mi_name r) then Inr False
         else Inr (mi_is_active r = 1 \<and> Some (mi_category r) = category))
      else
        (if mi_is_active r \<noteq> 1 then Inr False
         else if search = [] then Inr True
         else if like_too_long (wrap_wildcards search) then Inl pattern_too_complex
         else Inr (sql_like (wrap_wildcards search) (mi_name r))))"

text \<open>\<^verbatim>\<open>MenuRepo.list_items\<close>: the rows kept, ordered by category and name.\<close>

definition list_items ::
  "store \<Rightarrow> string option \<Rightarrow> string
     \<Rightarrow> error + (int \<times> string \<times> string \<times> int \<times> string option) list" where
  "list_items db category search =
     (case scan_where (item_where category search) (menu_items db) of
        Inl e \<Rightarrow> Inl e
      | Inr kept \<Rightarrow>
          Inr (map (\<lambda>r. (mi_id r, mi_name r, mi_category r, mi_price r, mi_image_path r))
                 (sort_key (\<lambda>r. (mi_category r, mi_name r)) kept)))"

section \<open>Order Ledger: \<^verbatim>\<open>OrderRepo.list_orders\<close>\<close>

definition ifnull :: "string option \<Rightarrow> string \<Rightarrow> string" where
  "ifnull v d = (case v of None \<Rightarrow> d | Some x \<Rightarrow> x)"

text \<open>The two optional conditions the function appends to the query, as truth values
  for a pattern within the length limit. A filter that is \<^verbatim>\<open>None\<close> or empty adds none.
  \<^verbatim>\<open>customer_name LIKE ?\<close> is not true of a row whose \<^verbatim>\<open>customer_name\<close> is \<^verbatim>\<open>NULL\<close>; the
  phone is compared through \<^verbatim>\<open>IFNULL(phone,'')\<close>.\<close>

definition order_name_cond :: "string option \<Rightarrow> order_row \<Rightarrow> bool" where
  "order_name_cond name r =
     (case name of
        None \<Rightarrow> True
      | Some v \<Rightarrow>
          if v = [] then True
          else (case o_customer_name r of
                  None \<Rightarrow> False
                | Some n \<Rightarrow> sql_like (wrap_wildcards v) n))"

definition order_phone_cond :: "string option \<Rightarrow> order_row \<Rightarrow> bool" where
  "order_phone_cond phone r =
     (case phone of
        None \<Rightarrow> True
      | Some v \<Rightarrow>
          if v = [] then True
          else sql_like (wrap_wildcards v) (ifnull (o_phone r) []))"

text \<open>A filter that adds a \<^verbatim>\<open>LIKE\<close> term whose pattern is over the length limit.\<close>

definition filter_too_long :: "string option \<Rightarrow> bool" where
  "filter_too_long f =
     (case f of None \<Rightarrow> False | Some v \<Rightarrow> v \<noteq> [] \<and> like_too_long (wrap_wildcards v))"

text \<open>The \<^verbatim>\<open>WHERE\<close> clause on one row: the name term, then the phone term.\<close>

definition order_where :: "string option \<Rightarrow> string option \<Rightarrow> order_row \<Rightarrow> error + bool" where
  "order_where name phone r =
     (if filter_too_long name then Inl pattern_too_complex
      else if \<not> order_name_cond name r then Inr False
      else if filter_too_long phone then Inl pattern_too_complex
      else Inr (order_phone_cond phone r))"

definition order_report_row :: "order_row \<Rightarrow> int \<times> string \<times> string \<times> string \<times> int" where
  "order_report_row r =
     (o_id r, o_created_at r, ifnull (o_customer_name r) [], ifnull (o_phone r) [], o_total r)"

text \<open>\<^verbatim>\<open>OrderRepo.list_orders(name, phone)\<close>: \<^verbatim>\<open>ORDER BY id DESC\<close> is a scan of the table
  from the largest id down.\<close>

definition list_orders ::
  "store \<Rightarrow> string option \<Rightarrow> string option
     \<Rightarrow> error + (int \<times> string \<times> string \<times> string \<times> int) list" where
  "list_orders db name phone =
     (case scan_where (order_where name phone) (rev (sort_key o_id (orders db))) of
        Inl e \<Rightarrow> Inl e
      | Inr kept \<Rightarrow> Inr (map order_report_row kept))"

text \<open>What the specification says the filters are: the filter occurs in the text as a
  substring, compared character by character.\<close>

fun starts_with :: "string \<Rightarrow> string \<Rightarrow> bool" where
  "starts_with [] t = True"
| "starts_with (a # f) [] = False"
| "starts_with (a # f) (c # t) = (a = c \<and> starts_with f t)"

fun contains_substring :: "string \<Rightarrow> string \<Rightarrow> bool" where
  "contains_substring f [] = (f = [])"
| "contains_substring f (c # t) = (starts_with f (c # t) \<or> contains_substring f t)"

section \<open>Customer Directory: \<^verbatim>\<open>CustomerRepo.ensure_customer\<close>\<close>

text \<open>\<^verbatim>\<open>SELECT id FROM customers WHERE name = ? AND IFNULL(phone,'') = ?\<close> and
  \<^verbatim>\<open>fetchone()\<close>. SQLite answers the query from the index of \<^verbatim>\<open>UNIQUE(name, phone)\<close>, in
  which a \<^verbatim>\<open>NULL\<close> phone comes before every text: when the phone asked for is empty, a
  row of that name with a \<^verbatim>\<open>NULL\<close> phone is returned before the row with the empty
  phone. For any other phone at most one row matches.\<close>

definition select_customer :: "customer_row list \<Rightarrow> string \<Rightarrow> string \<Rightarrow> int option" where
  "select_customer cs name phone =
     map_option c_id
       (case (if phone = [] then find (\<lambda>r. c_name r = name \<and> c_phone r = None) cs else None) of
          Some r \<Rightarrow> Some r
        | None \<Rightarrow> find (\<lambda>r. c_name r = name \<and> c_phone r = Some phone) cs)"

text \<open>\<^verbatim>\<open>INSERT INTO customers(name, phone, email)\<close> under \<^verbatim>\<open>UNIQUE(name, phone)\<close>; a
  \<^verbatim>\<open>NULL\<close> phone never collides.\<close>

definition insert_customer :: "store \<Rightarrow> string \<Rightarrow> string \<Rightarrow> string \<Rightarrow> error + (store \<times> int)" where
  "insert_customer db name phone email =
     (if list_ex (\<lambda>r. c_name r = name \<and> c_phone r = Some phone) (customers db)
      then Inl (IntegrityError ''UNIQUE constraint failed: customers.name, customers.phone'')
      else
        (let new_id = next_rowid (seq_customers db) (map c_id (customers db))
         in Inr (db\<lparr>customers := customers db @
                      [\<lparr>c_id = new_id, c_name = name, c_phone = Some phone, c_email = Some email\<rparr>],
                    seq_customers := new_id\<rparr>, new_id)))"

text \<open>\<^verbatim>\<open>ensure_customer(name, phone, email)\<close> opens a connection of its own and commits
  its insert before it returns.\<close>

definition ensure_customer :: "store \<Rightarrow> string \<Rightarrow> string \<Rightarrow> string \<Rightarrow> store \<times> (error + int)" where
  "ensure_customer db name phone email =
     (case select_customer (customers db) name phone of
        Some i \<Rightarrow> (db, Inr i)
      | None \<Rightarrow>
          (case insert_customer db name phone email of
             Inl e \<Rightarrow> (db, Inl e)
           | Inr (db', new_id) \<Rightarrow> (db', Inr new_id)))"

section \<open>Booking Ledger: \<^verbatim>\<open>BookingRepo.create_booking\<close>\<close>

text \<open>
  \<^verbatim>\<open>datetime.date\<close>: \<^verbatim>\<open>date.fromisoformat\<close> for the form \<^verbatim>\<open>YYYY-MM-DD\<close> (the form the
  booking form asks for and the only one Python 3.10 reads; the further ISO 8601 forms
  that later versions read are rejected here), the validation of \<^verbatim>\<open>date(y, m, d)\<close>, and
  the proleptic Gregorian ordinal behind \<^verbatim>\<open>(d2 - d1).days\<close>.
\<close>

record date =
  d_year :: nat
  d_month :: nat
  d_day :: nat

fun parse_digits :: "string \<Rightarrow> nat \<Rightarrow> nat option" where
  "parse_digits [] acc = Some acc"
| "parse_digits (c # cs) acc =
     (if CHR ''0'' \<le> c \<and> c \<le> CHR ''9''
      then parse_digits cs (10 * acc + (of_char c - 48))
      else None)"

definition is_leap :: "nat \<Rightarrow> bool" where
  "is_leap y = (y mod 4 = 0 \<and> (y mod 100 \<noteq> 0 \<or> y mod 400 = 0))"

definition days_in_month :: "nat \<Rightarrow> nat \<Rightarrow> nat" where
  "days_in_month y m =
     (if m = 2 then (if is_leap y then 29 else 28)
      else if m = 4 \<or> m = 6 \<or> m = 9 \<or> m = 11 then 30
      else 31)"

definition days_before_year :: "nat \<Rightarrow> nat" where
  "days_before_year y = (y - 1) * 365 + (y - 1) div 4 - (y - 1) div 100 + (y - 1) div 400"

definition days_before_month :: "nat \<Rightarrow> nat \<Rightarrow> nat" where
  "days_before_month y m = sum_list (map (days_in_month y) [1..<m])"

definition toordinal :: "date \<Rightarrow> nat" where
  "toordinal d = days_before_year (d_year d) + days_before_month (d_year d) (d_month d) + d_day d"

definition fromisoformat :: "string \<Rightarrow> error + date" where
  "fromisoformat s =
     (if length s = 10 \<and> s ! 4 = CHR ''-'' \<and> s ! 7 = CHR ''-'' then
        (case (parse_digits (take 4 s) 0, parse_digits (take 2 (drop 5 s)) 0,
               parse_digits (drop 8 s) 0) of
           (Some y, Some m, Some d) \<Rightarrow>
             if 1 \<le> y \<and> y \<le> 9999 \<and> 1 \<le> m \<and> m \<le> 12 \<and> 1 \<le> d \<and> d \<le> days_in_month y m
             then Inr \<lparr>d_year = y, d_month = m, d_day = d\<rparr>
             else Inl (InvalidIsoformat s)
         | _ \<Rightarrow> Inl (InvalidIsoformat s))
      else Inl (InvalidIsoformat s))"

text \<open>\<^verbatim>\<open>nights = (d2 - d1).days\<close>\<close>

definition nights_between :: "date \<Rightarrow> date \<Rightarrow> int" where
  "nights_between d1 d2 = int (toordinal d2) - int (toordinal d1)"

text \<open>\<^verbatim>\<open>SELECT price_per_night FROM rooms WHERE id = ?\<close> and \<^verbatim>\<open>fetchone()\<close>\<close>

definition select_room_price :: "room_row list \<Rightarrow> int \<Rightarrow> int option" where
  "select_room_price rs room_id = map_option r_price_per_night (find (\<lambda>r. r_id r = room_id) rs)"

text \<open>
  \<^verbatim>\<open>INSERT INTO bookings(...)\<close> under the two foreign keys. No constraint of the schema
  can refuse the statement where \<^verbatim>\<open>create_booking\<close> runs it, but the store can: \<open>fault\<close>
  is the error, if any, that \<^verbatim>\<open>cur.execute\<close> raises for a reason outside the schema
  (\<^verbatim>\<open>sqlite3.OperationalError\<close>: an I/O failure, a locked database).
\<close>

definition insert_booking ::
  "store \<Rightarrow> error option \<Rightarrow> int \<Rightarrow> int \<Rightarrow> string \<Rightarrow> string \<Rightarrow> int \<Rightarrow> int \<Rightarrow> string \<Rightarrow> string
     \<Rightarrow> error + (store \<times> int)" where
  "insert_booking db fault customer_id room_id check_in check_out nights tot now status =
     (case fault of
        Some e \<Rightarrow> Inl e
      | None \<Rightarrow>
          if customer_id \<notin> set (map c_id (customers db)) \<or> room_id \<notin> set (map r_id (rooms db))
          then Inl (IntegrityError ''FOREIGN KEY constraint failed'')
          else
            (let new_id = next_rowid (seq_bookings db) (map b_id (bookings db))
             in Inr (db\<lparr>bookings := bookings db @
                          [\<lparr>b_id = new_id, b_customer_id = customer_id, b_room_id = room_id,
                            b_check_in = check_in, b_check_out = check_out, b_nights = nights,
                            b_total = tot, b_created_at = now, b_status = status\<rparr>],
                        seq_bookings := new_id\<rparr>, new_id)))"

text \<open>
  \<^verbatim>\<open>BookingRepo.create_booking(customer_name, phone, room_id, check_in, check_out)\<close>.
  The dates are parsed and compared before \<^verbatim>\<open>get_conn()\<close>. The room is read on the
  function's own connection; \<^verbatim>\<open>CustomerRepo.ensure_customer\<close> then runs on a second
  connection and commits there (store \<open>db1\<close>); the \<^verbatim>\<open>INSERT\<close> and \<^verbatim>\<open>conn.commit()\<close>
  follow on the first connection. When the \<^verbatim>\<open>INSERT\<close> raises, \<^verbatim>\<open>conn.close()\<close> discards
  the first connection's transaction only: the committed store is \<open>db1\<close>.
\<close>

definition create_booking ::
  "store \<Rightarrow> error option \<Rightarrow> string \<Rightarrow> string \<Rightarrow> string \<Rightarrow> int \<Rightarrow> string \<Rightarrow> string
     \<Rightarrow> store \<times> (error + int)" where
  "create_booking db fault now customer_name phone room_id check_in check_out =
     (case fromisoformat check_in of
        Inl e \<Rightarrow> (db, Inl e)
      | Inr d1 \<Rightarrow>
     (case fromisoformat check_out of
        Inl e \<Rightarrow> (db, Inl e)
      | Inr d2 \<Rightarrow>
     (let nights = nights_between d1 d2 in
      if nights \<le> 0 then (db, Inl CheckoutNotAfterCheckin)
      else
        (case select_room_price (rooms db) room_id of
           None \<Rightarrow> (db, Inl RoomNotFound)
         | Some price \<Rightarrow>
             (let tot = price * nights in
              case ensure_customer db customer_name phone [] of
                (db1, Inl e) \<Rightarrow> (db1, Inl e)
              | (db1, Inr cust_id) \<Rightarrow>
                  (case insert_booking db1 fault cust_id room_id check_in check_out nights tot
                          now ''Booked'' of
                     Inl e \<Rightarrow> (db1, Inl e)
                   | Inr (tx, booking_id) \<Rightarrow> (tx, Inr booking_id)))))))"

section \<open>Support Ticket Ledger: \<^verbatim>\<open>TicketRepo.create_ticket\<close> and the form's handler\<close>

text \<open>\<^verbatim>\<open>INSERT INTO tickets(customer_id, category, subject, message, status, created_at)\<close>
  under \<^verbatim>\<open>subject TEXT NOT NULL\<close> (any string, the empty one too, is not \<^verbatim>\<open>NULL\<close>) and
  the foreign key to \<^verbatim>\<open>customers\<close>.\<close>

definition insert_ticket ::
  "store \<Rightarrow> int \<Rightarrow> string \<Rightarrow> string \<Rightarrow> string \<Rightarrow> string \<Rightarrow> string \<Rightarrow> error + (store \<times> int)" where
  "insert_ticket db customer_id category subject message status now =
     (if customer_id \<notin> set (map c_id (customers db))
      then Inl (IntegrityError ''FOREIGN KEY constraint failed'')
      else
        (let new_id = next_rowid (seq_tickets db) (map tk_id (tickets db))
         in Inr (db\<lparr>tickets := tickets db @
                      [\<lparr>tk_id = new_id, tk_customer_id = Some customer_id, tk_category = Some category,
                        tk_subject = subject, tk_message = Some message, tk_status = status,
                        tk_created_at = now\<rparr>],
                    seq_tickets := new_id\<rparr>, new_id)))"

text \<open>\<^verbatim>\<open>TicketRepo.create_ticket(name, phone, category, subject, message)\<close>: customer
  resolution first, then the insert on a connection of its own. Nothing here looks at
  \<^verbatim>\<open>subject\<close>.\<close>

definition create_ticket ::
  "store \<Rightarrow> string \<Rightarrow> string \<Rightarrow> string \<Rightarrow> string \<Rightarrow> string \<Rightarrow> string \<Rightarrow> store \<times> (error + int)" where
  "create_ticket db now name phone category subject message =
     (case ensure_customer db name phone [] of
        (db1, Inl e) \<Rightarrow> (db1, Inl e)
      | (db1, Inr cust_id) \<Rightarrow>
          (case insert_ticket db1 cust_id category subject message ''Open'' now of
             Inl e \<Rightarrow> (db1, Inl e)
           | Inr (tx, ticket_id) \<Rightarrow> (tx, Inr ticket_id)))"

text \<open>\<^verbatim>\<open>str.strip()\<close>: the whitespace characters with codes below 256 are those that
  \<^verbatim>\<open>str.isspace\<close> accepts there.\<close>

definition is_space :: "char \<Rightarrow> bool" where
  "is_space c = (of_char c \<in> {9, 10, 11, 12, 13, 28, 29, 30, 31, 32, 133, 160 :: nat})"

definition strip :: "string \<Rightarrow> string" where
  "strip s = rev (dropWhile is_space (rev (dropWhile is_space s)))"

text \<open>
  \<^verbatim>\<open>SupportFrame._create_ticket\<close>, the handler of the form's button, as a function of
  the texts in the form's fields: it strips them, refuses an empty subject and only then
  calls \<^verbatim>\<open>TicketRepo.create_ticket\<close>. An exception ends in the error dialog; the store
  is as the exception left it.
\<close>

definition SupportFrame_create_ticket ::
  "store \<Rightarrow> string \<Rightarrow> string \<Rightarrow> string \<Rightarrow> string \<Rightarrow> string \<Rightarrow> string \<Rightarrow> store \<times> (error + int)" where
  "SupportFrame_create_ticket db now t_name t_phone cat_var t_subject t_message =
     (let name = strip t_name; phone = strip t_phone; subject = strip t_subject;
          category = strip cat_var; message = strip t_message
      in if subject = [] then (db, Inl SubjectRequired)
         else create_ticket db now name phone category subject message)"

section \<open>Image Path Resolver: \<^verbatim>\<open>resolve_image_path\<close>\<close>

text \<open>
  \<^verbatim>\<open>os.path\<close> as \<^verbatim>\<open>posixpath\<close> has it. The file system is the predicate \<open>exists\<close>
  (\<^verbatim>\<open>os.path.exists\<close>) and \<open>assets_dir\<close> is \<^verbatim>\<open>ASSETS_DIR\<close>.
\<close>

definition isabs :: "string \<Rightarrow> bool" where
  "isabs p = (case p of [] \<Rightarrow> False | c # _ \<Rightarrow> c = CHR ''/'')"

definition join :: "string \<Rightarrow> string \<Rightarrow> string" where
  "join a b =
     (if isabs b then b
      else if a = [] \<or> last a = CHR ''/'' then a @ b
      else a @ ''/'' @ b)"

text \<open>\<^verbatim>\<open>str.rfind\<close> of one character: the last index, or -1.\<close>

definition rfind :: "string \<Rightarrow> char \<Rightarrow> int" where
  "rfind p c = (case find (\<lambda>i. p ! i = c) (rev [0..<length p]) of None \<Rightarrow> - 1 | Some i \<Rightarrow> int i)"

text \<open>The loop of \<^verbatim>\<open>genericpath._splitext\<close> that skips the leading dots of the file
  name: true when a character other than a dot stands before the last dot.\<close>

function skip_dots :: "string \<Rightarrow> nat \<Rightarrow> nat \<Rightarrow> bool" where
  "skip_dots p filenameIndex dotIndex =
     (if filenameIndex < dotIndex
      then (if p ! filenameIndex \<noteq> CHR ''.'' then True
            else skip_dots p (filenameIndex + 1) dotIndex)
      else False)"
  by pat_completeness auto
termination
  by (relation "measure (\<lambda>(p, filenameIndex, dotIndex). dotIndex - filenameIndex)") auto

definition splitext :: "string \<Rightarrow> string \<times> string" where
  "splitext p =
     (let sepIndex = rfind p CHR ''/''; dotIndex = rfind p CHR ''.''
      in if dotIndex > sepIndex \<and> skip_dots p (nat (sepIndex + 1)) (nat dotIndex)
         then (take (nat dotIndex) p, drop (nat dotIndex) p)
         else (p, []))"

text \<open>The \<^verbatim>\<open>for v in variants\<close> loop.\<close>

fun first_existing :: "string \<Rightarrow> (string \<Rightarrow> bool) \<Rightarrow> string list \<Rightarrow> string option" where
  "first_existing assets_dir exists [] = None"
| "first_existing assets_dir exists (v # vs) =
     (let cand = join assets_dir v
      in if exists cand then Some cand else first_existing assets_dir exists vs)"

definition resolve_image_path :: "string \<Rightarrow> (string \<Rightarrow> bool) \<Rightarrow> string option \<Rightarrow> string option" where
  "resolve_image_path assets_dir exists path =
     (case path of
        None \<Rightarrow> None
      | Some p \<Rightarrow>
          if p = [] then None
          else if isabs p \<and> exists p then Some p
          else
            (let cand = join assets_dir p
             in if exists cand then Some cand
                else
                  (let base = fst (splitext p);
                       variants = [p, base @ ''.png'', base @ ''.jpg'', base @ ''.jpeg'', p @ ''.png'']
                   in first_existing assets_dir exists variants)))"

text \<open>
  The resolver as the specification words it: no result for an empty hint; an absolute
  hint that exists as it is; otherwise the first that exists of the hint, the stem with
  \<^verbatim>\<open>.png\<close>, \<^verbatim>\<open>.jpg\<close>, \<^verbatim>\<open>.jpeg\<close>, and the hint with \<^verbatim>\<open>.png\<close> appended, each taken relative
  to the assets root; none when none exists.
\<close>

definition spec_variants :: "string \<Rightarrow> string list" where
  "spec_variants hint =
     [hint, fst (splitext hint) @ ''.png'', fst (splitext hint) @ ''.jpg'',
      fst (splitext hint) @ ''.jpeg'', hint @ ''.png'']"

definition spec_resolve :: "string \<Rightarrow> (string \<Rightarrow> bool) \<Rightarrow> string option \<Rightarrow> string option" where
  "spec_resolve assets_dir exists hint =
     (case hint of
        None \<Rightarrow> None
      | Some h \<Rightarrow>
          if h = [] then None
          else if isabs h \<and> exists h then Some h
          else find exists (map (join assets_dir) (spec_variants h)))"

section \<open>Notions used in the statements\<close>

text \<open>The price \<^verbatim>\<open>create_order\<close> reads for an item id (0 stands for no row).\<close>

definition current_price :: "menu_item_row list \<Rightarrow> int \<Rightarrow> int" where
  "current_price ms item_id = (case select_price ms item_id of None \<Rightarrow> 0 | Some price \<Rightarrow> price)"

text \<open>The store with the \<^verbatim>\<open>is_active\<close> column of \<^verbatim>\<open>menu_items\<close> rewritten by \<open>f\<close>.\<close>

definition reflag :: "(menu_item_row \<Rightarrow> int) \<Rightarrow> store \<Rightarrow> store" where
  "reflag f db = db\<lparr>menu_items := map (\<lambda>r. r\<lparr>mi_is_active := f r\<rparr>) (menu_items db)\<rparr>"

text \<open>A store for the concrete evaluations: the first two rows of \<^verbatim>\<open>MENU_SEED\<close> (the
  second one deactivated) and the first two of \<^verbatim>\<open>ROOMS_SEED\<close>, nothing else.\<close>

definition demo_store :: store where
  "demo_store =
     \<lparr>menu_items =
        [\<lparr>mi_id = 1, mi_name = ''Pizza Margherita'', mi_category = ''Main'', mi_price = 500,
          mi_image_path = Some ''pizza.png.png'', mi_is_active = 1\<rparr>,
         \<lparr>mi_id = 2, mi_name = ''Pasta Alfredo'', mi_category = ''Main'', mi_price = 750,
          mi_image_path = Some ''pasta.png.png'', mi_is_active = 0\<rparr>],
      orders = [], order_items = [], customers = [],
      rooms =
        [\<lparr>r_id = 1, r_room_no = ''101'', r_room_type = ''Single'', r_price_per_night = 3500,
          r_is_active = 1\<rparr>,
         \<lparr>r_id = 2, r_room_no = ''102'', r_room_type = ''Double'', r_price_per_night = 5000,
          r_is_active = 1\<rparr>],
      bookings = [], tickets = [],
      seq_orders = 0, seq_order_items = 0, seq_customers = 0, seq_bookings = 0, seq_tickets = 0\<rparr>"

text \<open>The validation of \<^verbatim>\<open>create_booking\<close> and its room lookup pass: both dates parse,
  the check-out is after the check-in and the room has a row. These are the steps
  before customer resolution.\<close>

definition passes_checks :: "store \<Rightarrow> int \<Rightarrow> string \<Rightarrow> string \<Rightarrow> bool" where
  "passes_checks db room_id check_in check_out =
     (case (fromisoformat check_in, fromisoformat check_out) of
        (Inr d1, Inr d2) \<Rightarrow>
          0 < nights_between d1 d2 \<and> select_room_price (rooms db) room_id \<noteq> None
      | _ \<Rightarrow> False)"

text \<open>A filter text with no special reading under \<^verbatim>\<open>LIKE\<close>: it holds neither of the two
  wildcards nor U+0000, and the pattern made of it is within the length limit.\<close>

definition plain_filter :: "string \<Rightarrow> bool" where
  "plain_filter v =
     (\<not> list_ex (\<lambda>c. c = CHR ''%'' \<or> c = CHR ''_'' \<or> c = CHR 0x00) v \<and>
      \<not> like_too_long (wrap_wildcards v))"

text \<open>The filter occurs in the text as a substring when the ASCII letters of both are
  compared without regard to case.\<close>

definition icontains :: "string \<Rightarrow> string \<Rightarrow> bool" where
  "icontains f t = contains_substring (map ascii_lower f) (map ascii_lower t)"

text \<open>The store above with two orders.\<close>

definition demo_orders :: store where
  "demo_orders = demo_store\<lparr>orders :=
      [\<lparr>o_id = 1, o_customer_name = Some ''Alice'', o_phone = Some ''0300'', o_total = 1000,
        o_created_at = ''2025-01-09T08:00:00''\<rparr>,
       \<lparr>o_id = 2, o_customer_name = Some ''Bob'', o_phone = Some ''0411'', o_total = 750,
        o_created_at = ''2025-01-09T09:30:00''\<rparr>],
      seq_orders := 2\<rparr>"

section \<open>Properties of the Order Ledger\<close>

lemma select_price_None_iff: "select_price ms i = None \<longleftrightarrow> i \<notin> mi_id ` set ms"
  by (auto simp: select_price_def find_None_iff)

lemma select_price_current:
  "i \<in> mi_id ` set ms \<Longrightarrow> select_price ms i = Some (current_price ms i)"
  using select_price_None_iff [of ms i]
  by (cases "select_price ms i") (auto simp: current_price_def)

lemma price_cart_unknown:
  "\<exists>p \<in> set cart. select_price ms (fst p) = None \<Longrightarrow>
   \<exists>i \<in> fst ` set cart. select_price ms i = None \<and> price_cart ms cart tot items = Inl (MenuItemNotFound i)"
proof (induction cart arbitrary: tot items)
  case Nil
  then show ?case by simp
next
  case (Cons a cart)
  obtain item_id qty where a: "a = (item_id, qty)" by (cases a)
  show ?case
  proof (cases "select_price ms item_id")
    case None
    then show ?thesis using a by auto
  next
    case (Some price)
    with Cons.prems a have "\<exists>p \<in> set cart. select_price ms (fst p) = None" by auto
    from Cons.IH [OF this, of "tot + price * qty" "items @ [(item_id, qty, price * qty)]"]
    show ?thesis using a Some by auto
  qed
qed

lemma price_cart_known:
  "\<forall>p \<in> set cart. fst p \<in> mi_id ` set ms \<Longrightarrow>
   price_cart ms cart tot items =
     Inr (tot + sum_list (map (\<lambda>(i, q). current_price ms i * q) cart),
          items @ map (\<lambda>(i, q). (i, q, current_price ms i * q)) cart)"
proof (induction cart arbitrary: tot items)
  case Nil
  then show ?case by simp
next
  case (Cons a cart)
  obtain i q where a: "a = (i, q)" by (cases a)
  from Cons.prems a have "select_price ms i = Some (current_price ms i)"
    by (simp add: select_price_current)
  moreover from Cons.prems have "\<forall>p \<in> set cart. fst p \<in> mi_id ` set ms" by simp
  ultimately show ?case using a Cons.IH by (simp add: Let_def algebra_simps)
qed

lemma next_rowid_fresh: "i \<in> set ids \<Longrightarrow> i < next_rowid seq ids"
proof -
  assume i: "i \<in> set ids"
  have "fold max ids (max seq 0) = Max (set (max seq 0 # ids))"
    by (simp only: Max.set_eq_fold)
  moreover have "i \<le> Max (set (max seq 0 # ids))"
    using i by (intro Max_ge) auto
  ultimately show ?thesis by (simp add: next_rowid_def)
qed

lemma insert_items_known:
  "\<forall>t \<in> set items. fst t \<in> mi_id ` set (menu_items db) \<and> 1 \<le> fst (snd t) \<and>
       storable (fst (snd t)) \<and> storable (snd (snd t)) \<Longrightarrow>
   order_id \<in> o_id ` set (orders db) \<Longrightarrow>
   \<exists>db' new_lines.
     insert_items db order_id items = Inr db' \<and>
     order_items db' = order_items db @ new_lines \<and>
     map (\<lambda>r. (oi_order_id r, oi_item_id r, oi_qty r, oi_line_total r)) new_lines =
       map (\<lambda>(i, q, l). (order_id, i, q, l)) items \<and>
     db'\<lparr>order_items := order_items db, seq_order_items := seq_order_items db\<rparr> = db"
proof (induction items arbitrary: db)
  case Nil
  then show ?case by simp
next
  case (Cons a items)
  obtain i q l where a: "a = (i, q, l)" by (cases a)
  define row where "row = \<lparr>oi_id = next_rowid (seq_order_items db) (map oi_id (order_items db)),
      oi_order_id = order_id, oi_item_id = i, oi_qty = q, oi_line_total = l\<rparr>"
  define db1 where "db1 = db\<lparr>order_items := order_items db @ [row], seq_order_items := oi_id row\<rparr>"
  from Cons.prems a have step: "insert_order_item db order_id i q l = Inr db1"
    by (auto simp: insert_order_item_def db1_def row_def Let_def)
  have "\<forall>t \<in> set items. fst t \<in> mi_id ` set (menu_items db1) \<and> 1 \<le> fst (snd t) \<and>
       storable (fst (snd t)) \<and> storable (snd (snd t))"
    and "order_id \<in> o_id ` set (orders db1)"
    using Cons.prems by (simp_all add: db1_def)
  from Cons.IH [OF this] obtain db' new_lines where
    r: "insert_items db1 order_id items = Inr db'"
       "order_items db' = order_items db1 @ new_lines"
       "map (\<lambda>r. (oi_order_id r, oi_item_id r, oi_qty r, oi_line_total r)) new_lines =
          map (\<lambda>(i, q, l). (order_id, i, q, l)) items"
       "db'\<lparr>order_items := order_items db1, seq_order_items := seq_order_items db1\<rparr> = db1"
    by blast
  have "insert_items db order_id (a # items) = Inr db'"
    using a step r(1) by simp
  moreover have "order_items db' = order_items db @ (row # new_lines)"
    using r(2) by (simp add: db1_def)
  moreover have "map (\<lambda>r. (oi_order_id r, oi_item_id r, oi_qty r, oi_line_total r)) (row # new_lines) =
       map (\<lambda>(i, q, l). (order_id, i, q, l)) (a # items)"
    using r(3) a by (simp add: row_def)
  moreover have "db'\<lparr>order_items := order_items db, seq_order_items := seq_order_items db\<rparr> = db"
  proof -
    have "db'\<lparr>order_items := order_items db, seq_order_items := seq_order_items db\<rparr> =
      (db'\<lparr>order_items := order_items db1, seq_order_items := seq_order_items db1\<rparr>)
         \<lparr>order_items := order_items db, seq_order_items := seq_order_items db\<rparr>"
      by simp
    also have "\<dots> = db" unfolding r(4) by (simp add: db1_def)
    finally show ?thesis .
  qed
  ultimately show ?case by blast
qed

lemma create_order_known:
  assumes ids: "\<forall>p \<in> set cart. fst p \<in> mi_id ` set (menu_items db) \<and> 1 \<le> snd p \<and>
       storable (snd p) \<and> storable (current_price (menu_items db) (fst p) * snd p)"
    and tot: "storable (sum_list (map (\<lambda>(i, q). current_price (menu_items db) i * q) cart))"
  shows "\<exists>db' order_id new_lines.
      create_order db now customer_name phone cart = (db', Inr order_id) \<and>
      order_id = next_rowid (seq_orders db) (map o_id (orders db)) \<and>
      orders db' = orders db @
        [\<lparr>o_id = order_id, o_customer_name = Some customer_name, o_phone = Some phone,
          o_total = sum_list (map (\<lambda>(i, q). current_price (menu_items db) i * q) cart),
          o_created_at = now\<rparr>] \<and>
      order_items db' = order_items db @ new_lines \<and>
      map (\<lambda>r. (oi_order_id r, oi_item_id r, oi_qty r, oi_line_total r)) new_lines =
        map (\<lambda>(i, q). (order_id, i, q, current_price (menu_items db) i * q)) cart \<and>
      menu_items db' = menu_items db"
proof -
  let ?ms = "menu_items db"
  let ?tot = "sum_list (map (\<lambda>(i, q). current_price ?ms i * q) cart)"
  let ?items = "map (\<lambda>(i, q). (i, q, current_price ?ms i * q)) cart"
  let ?oid = "next_rowid (seq_orders db) (map o_id (orders db))"
  define tx where "tx = db\<lparr>orders := orders db @
        [\<lparr>o_id = ?oid, o_customer_name = Some customer_name, o_phone = Some phone,
          o_total = ?tot, o_created_at = now\<rparr>], seq_orders := ?oid\<rparr>"
  from ids have pc: "price_cart ?ms cart 0 [] = Inr (?tot, ?items)"
    using price_cart_known [of cart ?ms 0 "[]"] by simp
  have io: "insert_order db customer_name phone ?tot now = Inr (tx, ?oid)"
    using tot by (simp add: insert_order_def tx_def Let_def)
  have "\<forall>t \<in> set ?items. fst t \<in> mi_id ` set (menu_items tx) \<and> 1 \<le> fst (snd t) \<and>
       storable (fst (snd t)) \<and> storable (snd (snd t))"
    using ids by (auto simp: tx_def)
  moreover have "?oid \<in> o_id ` set (orders tx)" by (simp add: tx_def)
  ultimately obtain db' new_lines where
    r: "insert_items tx ?oid ?items = Inr db'"
       "order_items db' = order_items tx @ new_lines"
       "map (\<lambda>r. (oi_order_id r, oi_item_id r, oi_qty r, oi_line_total r)) new_lines =
          map (\<lambda>(i, q, l). (?oid, i, q, l)) ?items"
       "db'\<lparr>order_items := order_items tx, seq_order_items := seq_order_items tx\<rparr> = tx"
    using insert_items_known [of ?items tx ?oid] by blast
  have co: "create_order db now customer_name phone cart = (db', Inr ?oid)"
    using pc io r(1) by (simp add: create_order_def)
  have o: "orders db' = orders tx" and m: "menu_items db' = menu_items tx"
    using arg_cong [OF r(4), of orders] arg_cong [OF r(4), of menu_items] by simp_all
  have l: "map (\<lambda>r. (oi_order_id r, oi_item_id r, oi_qty r, oi_line_total r)) new_lines =
        map (\<lambda>(i, q). (?oid, i, q, current_price ?ms i * q)) cart"
    using r(3) by (simp add: case_prod_beta comp_def)
  show ?thesis
    using co o m l r(2) by (simp add: tx_def)
qed

text \<open>
  C1. A cart that holds an item id with no row in \<^verbatim>\<open>menu_items\<close> makes \<^verbatim>\<open>create_order\<close>
  raise the "Menu item id ... not found" error for such an id, and the committed store
  after the call is the store before it: no \<^verbatim>\<open>orders\<close> row, no \<^verbatim>\<open>order_items\<close> row.
\<close>

theorem create_order_unknown_item:
  assumes "\<exists>p \<in> set cart. fst p \<notin> mi_id ` set (menu_items db)"
  shows "\<exists>i \<in> fst ` set cart. i \<notin> mi_id ` set (menu_items db) \<and>
           create_order db now customer_name phone cart = (db, Inl (MenuItemNotFound i))"
proof -
  from assms have "\<exists>p \<in> set cart. select_price (menu_items db) (fst p) = None"
    by (simp add: select_price_None_iff)
  from price_cart_unknown [OF this, of 0 "[]"] obtain i where
    i: "i \<in> fst ` set cart" "select_price (menu_items db) i = None"
       "price_cart (menu_items db) cart 0 [] = Inl (MenuItemNotFound i)"
    by blast
  from i(3) have "create_order db now customer_name phone cart = (db, Inl (MenuItemNotFound i))"
    by (simp add: create_order_def)
  with i(1,2) show ?thesis by (auto simp: select_price_None_iff)
qed

theorem create_order_unknown_item_witness:
  "create_order demo_store ''2025-01-10T12:00:00'' ''Ann'' ''0300'' [(1, 2), (99, 1)] =
     (demo_store, Inl (MenuItemNotFound 99))"
  using create_order_unknown_item
    [of "[(1, 2), (99, 1)]" demo_store "''2025-01-10T12:00:00''" "''Ann''" "''0300''"]
  by (simp add: demo_store_def)

lemma filter_old_lines:
  assumes fk: "\<forall>r \<in> set old. oi_order_id r \<in> o_id ` set os"
  shows "filter (\<lambda>r. oi_order_id r = next_rowid seq (map o_id os)) old = []"
proof -
  have "oi_order_id r \<noteq> next_rowid seq (map o_id os)" if "r \<in> set old" for r
  proof -
    from fk that have "oi_order_id r \<in> set (map o_id os)" by simp
    from next_rowid_fresh [OF this, of seq] show ?thesis by simp
  qed
  then show ?thesis by (simp add: filter_empty_conv)
qed

lemma filter_old_orders:
  "filter (\<lambda>r. o_id r = next_rowid seq (map o_id os)) os = []"
proof -
  have "o_id r \<noteq> next_rowid seq (map o_id os)" if "r \<in> set os" for r
  proof -
    from that have "o_id r \<in> set (map o_id os)" by simp
    from next_rowid_fresh [OF this, of seq] show ?thesis by simp
  qed
  then show ?thesis by (simp add: filter_empty_conv)
qed

lemma filter_new_lines:
  assumes "map (\<lambda>r. (oi_order_id r, oi_item_id r, oi_qty r, oi_line_total r)) new_lines =
             map (\<lambda>(i, q). (order_id, i, q, g i q)) cart"
  shows "filter (\<lambda>r. oi_order_id r = order_id) new_lines = new_lines
       \<and> map (\<lambda>r. (oi_item_id r, oi_qty r, oi_line_total r)) new_lines = map (\<lambda>(i, q). (i, q, g i q)) cart"
proof -
  have a: "map oi_order_id new_lines = map (\<lambda>p. order_id) cart"
    using arg_cong [OF assms, of "map fst"] by (simp add: comp_def case_prod_beta)
  have "\<forall>r \<in> set new_lines. oi_order_id r = order_id"
  proof
    fix r assume "r \<in> set new_lines"
    then have "oi_order_id r \<in> set (map oi_order_id new_lines)" by simp
    then show "oi_order_id r = order_id" unfolding a by auto
  qed
  then have "filter (\<lambda>r. oi_order_id r = order_id) new_lines = new_lines" by simp
  moreover have "map (\<lambda>r. (oi_item_id r, oi_qty r, oi_line_total r)) new_lines = map (\<lambda>(i, q). (i, q, g i q)) cart"
    using arg_cong [OF assms, of "map snd"] by (simp add: comp_def case_prod_beta)
  ultimately show ?thesis by simp
qed

text \<open>
  C2, as amended. For a cart (the items of a dictionary, so with distinct keys) whose
  item ids all have a row in \<^verbatim>\<open>menu_items\<close>, whose quantities are all at least 1, and
  whose quantities, line totals and total are storable as 64-bit integers, on a store
  whose \<^verbatim>\<open>order_items\<close> rows all reference an existing order, \<^verbatim>\<open>create_order\<close> commits
  one order whose total is the sum over the cart of the item's
  current price times the quantity, and the \<^verbatim>\<open>order_items\<close> rows of that order are one per
  cart entry, in the cart's order, each with \<^verbatim>\<open>line_total\<close> = price times quantity; their
  number is the number of cart entries.
\<close>

theorem create_order_totals:
  assumes keys: "distinct (map fst cart)"
    and ids: "\<forall>p \<in> set cart. fst p \<in> mi_id ` set (menu_items db) \<and> 1 \<le> snd p \<and>
       storable (snd p) \<and> storable (current_price (menu_items db) (fst p) * snd p)"
    and tot: "storable (sum_list (map (\<lambda>(i, q). current_price (menu_items db) i * q) cart))"
    and fk: "\<forall>r \<in> set (order_items db). oi_order_id r \<in> o_id ` set (orders db)"
  shows "\<exists>db' order_id.
      create_order db now customer_name phone cart = (db', Inr order_id) \<and>
      filter (\<lambda>r. o_id r = order_id) (orders db') =
        [\<lparr>o_id = order_id, o_customer_name = Some customer_name, o_phone = Some phone,
          o_total = sum_list (map (\<lambda>(i, q). current_price (menu_items db) i * q) cart),
          o_created_at = now\<rparr>] \<and>
      map (\<lambda>r. (oi_item_id r, oi_qty r, oi_line_total r))
          (filter (\<lambda>r. oi_order_id r = order_id) (order_items db')) =
        map (\<lambda>(i, q). (i, q, current_price (menu_items db) i * q)) cart \<and>
      length (filter (\<lambda>r. oi_order_id r = order_id) (order_items db')) = card (set cart)"
proof -
  from create_order_known [OF ids tot, of now customer_name phone]
  obtain db' order_id new_lines where
    r: "create_order db now customer_name phone cart = (db', Inr order_id)"
       "order_id = next_rowid (seq_orders db) (map o_id (orders db))"
       "orders db' = orders db @
          [\<lparr>o_id = order_id, o_customer_name = Some customer_name, o_phone = Some phone,
            o_total = sum_list (map (\<lambda>(i, q). current_price (menu_items db) i * q) cart),
            o_created_at = now\<rparr>]"
       "order_items db' = order_items db @ new_lines"
       "map (\<lambda>r. (oi_order_id r, oi_item_id r, oi_qty r, oi_line_total r)) new_lines =
          map (\<lambda>(i, q). (order_id, i, q, current_price (menu_items db) i * q)) cart"
    by blast
  have o: "filter (\<lambda>r. o_id r = order_id) (orders db') =
        [\<lparr>o_id = order_id, o_customer_name = Some customer_name, o_phone = Some phone,
          o_total = sum_list (map (\<lambda>(i, q). current_price (menu_items db) i * q) cart),
          o_created_at = now\<rparr>]"
    unfolding r(3) using filter_old_orders [of "seq_orders db" "orders db"] r(2) by simp
  have f: "filter (\<lambda>r. oi_order_id r = order_id) (order_items db') = new_lines"
    unfolding r(4) using filter_old_lines [OF fk, of "seq_orders db"] r(2) filter_new_lines [OF r(5)]
    by simp
  have l: "map (\<lambda>r. (oi_item_id r, oi_qty r, oi_line_total r)) new_lines =
        map (\<lambda>(i, q). (i, q, current_price (menu_items db) i * q)) cart"
    using filter_new_lines [OF r(5)] by simp
  have "length new_lines = length cart"
    using arg_cong [OF l, of length] by simp
  moreover have "card (set cart) = length cart"
    using keys by (simp add: distinct_card distinct_map)
  ultimately have n: "length new_lines = card (set cart)" by simp
  show ?thesis using r(1) o f l n by simp
qed

theorem create_order_totals_witness:
  "(\<exists>db' order_id.
      create_order demo_store ''2025-01-10T12:00:00'' ''Ann'' ''0300'' [(1, 2), (2, 1)] = (db', Inr order_id) \<and>
      filter (\<lambda>r. o_id r = order_id) (orders db') =
        [\<lparr>o_id = order_id, o_customer_name = Some ''Ann'', o_phone = Some ''0300'',
          o_total = sum_list (map (\<lambda>(i, q). current_price (menu_items demo_store) i * q) [(1, 2), (2, 1)]),
          o_created_at = ''2025-01-10T12:00:00''\<rparr>] \<and>
      map (\<lambda>r. (oi_item_id r, oi_qty r, oi_line_total r))
          (filter (\<lambda>r. oi_order_id r = order_id) (order_items db')) =
        map (\<lambda>(i, q). (i, q, current_price (menu_items demo_store) i * q)) [(1, 2), (2, 1)] \<and>
      length (filter (\<lambda>r. oi_order_id r = order_id) (order_items db')) = card (set [(1 :: int, 2 :: int), (2, 1)]))
   \<and> sum_list (map (\<lambda>(i, q). current_price (menu_items demo_store) i * q) [(1, 2), (2, 1)]) = 1750
   \<and> map (\<lambda>(i, q). (i, q, current_price (menu_items demo_store) i * q)) [(1, 2), (2, 1)] = [(1, 2, 1000), (2, 1, 750)]"
proof -
  have keys: "distinct (map fst [(1 :: int, 2 :: int), (2, 1)])" by simp
  have ids: "\<forall>p \<in> set [(1 :: int, 2 :: int), (2, 1)].
      fst p \<in> mi_id ` set (menu_items demo_store) \<and> 1 \<le> snd p \<and> storable (snd p) \<and>
      storable (current_price (menu_items demo_store) (fst p) * snd p)"
    by (simp add: demo_store_def current_price_def select_price_def storable_def)
  have tot: "storable (sum_list (map (\<lambda>(i, q). current_price (menu_items demo_store) i * q)
      [(1, 2), (2, 1)]))"
    by (simp add: demo_store_def current_price_def select_price_def storable_def)
  have fk: "\<forall>r \<in> set (order_items demo_store). oi_order_id r \<in> o_id ` set (orders demo_store)"
    by (simp add: demo_store_def)
  have "sum_list (map (\<lambda>(i, q). current_price (menu_items demo_store) i * q) [(1, 2), (2, 1)]) = 1750"
    by (simp add: demo_store_def current_price_def select_price_def)
  moreover have "map (\<lambda>(i, q). (i, q, current_price (menu_items demo_store) i * q)) [(1, 2), (2, 1)] = [(1, 2, 1000), (2, 1, 750)]"
    by (simp add: demo_store_def current_price_def select_price_def)
  ultimately show ?thesis
    using create_order_totals [OF keys ids tot fk, of "''2025-01-10T12:00:00''" "''Ann''" "''0300''"]
    by blast
qed

text \<open>
  C2 as stated fails for a quantity below 1: the item exists, the cart is not empty, and
  \<^verbatim>\<open>CHECK(qty >= 1)\<close> refuses the line; the transaction is discarded and no order is
  stored.
\<close>

theorem create_order_zero_quantity_counterexample:
  "1 \<in> mi_id ` set (menu_items demo_store) \<and>
   create_order demo_store ''2025-01-10T12:00:00'' ''Ann'' ''0300'' [(1, 0)] =
     (demo_store, Inl (IntegrityError ''CHECK constraint failed: qty >= 1''))"
  by (simp add: demo_store_def create_order_def select_price_def insert_order_def
      insert_order_item_def storable_def Let_def)

text \<open>
  C9. \<^verbatim>\<open>create_order\<close> with an empty cart does not fail: it commits one new order row
  with total 0, adds no \<^verbatim>\<open>order_items\<close> row and returns the new order's id.
\<close>

theorem create_order_empty_cart:
  "create_order db now customer_name phone [] =
     (db\<lparr>orders := orders db @
            [\<lparr>o_id = next_rowid (seq_orders db) (map o_id (orders db)),
              o_customer_name = Some customer_name, o_phone = Some phone,
              o_total = 0, o_created_at = now\<rparr>],
          seq_orders := next_rowid (seq_orders db) (map o_id (orders db))\<rparr>,
      Inr (next_rowid (seq_orders db) (map o_id (orders db))))"
  by (simp add: create_order_def insert_order_def storable_def Let_def)

lemma select_price_reflag:
  "select_price (map (\<lambda>r. r\<lparr>mi_is_active := f r\<rparr>) ms) i = select_price ms i"
  by (induction ms) (auto simp: select_price_def)

lemma price_cart_reflag:
  "price_cart (map (\<lambda>r. r\<lparr>mi_is_active := f r\<rparr>) ms) cart tot items = price_cart ms cart tot items"
proof (induction cart arbitrary: tot items)
  case Nil
  then show ?case by simp
next
  case (Cons a cart)
  obtain i q where a: "a = (i, q)" by (cases a)
  show ?case using a Cons.IH by (simp add: select_price_reflag split: option.split)
qed

lemma insert_order_item_reflag:
  "insert_order_item (reflag f db) order_id i q l =
     (case insert_order_item db order_id i q l of Inl e \<Rightarrow> Inl e | Inr db' \<Rightarrow> Inr (reflag f db'))"
  by (simp add: insert_order_item_def reflag_def Let_def comp_def)

lemma insert_items_reflag:
  "insert_items (reflag f db) order_id items =
     (case insert_items db order_id items of Inl e \<Rightarrow> Inl e | Inr db' \<Rightarrow> Inr (reflag f db'))"
proof (induction items arbitrary: db)
  case Nil
  then show ?case by simp
next
  case (Cons a items)
  obtain i q l where a: "a = (i, q, l)" by (cases a)
  show ?case using a Cons.IH
    by (simp add: insert_order_item_reflag split: sum.split)
qed

lemma insert_order_reflag:
  "insert_order (reflag f db) n p t now =
     (case insert_order db n p t now of
        Inl e \<Rightarrow> Inl e
      | Inr (tx, order_id) \<Rightarrow> Inr (reflag f tx, order_id))"
  by (simp add: insert_order_def reflag_def Let_def)

lemma create_order_reflag:
  "create_order (reflag f db) now n p cart =
     (case create_order db now n p cart of (db', res) \<Rightarrow> (reflag f db', res))"
proof -
  have m: "menu_items (reflag f db) = map (\<lambda>r. r\<lparr>mi_is_active := f r\<rparr>) (menu_items db)"
    by (simp add: reflag_def)
  show ?thesis
    unfolding create_order_def m price_cart_reflag
    by (simp add: insert_order_reflag insert_items_reflag split: sum.split prod.split)
qed

lemma find_by_id:
  "distinct (map mi_id ms) \<Longrightarrow> r \<in> set ms \<Longrightarrow> find (\<lambda>x. mi_id x = mi_id r) ms = Some r"
  by (induction ms) (auto simp: image_iff)

lemma scan_where_subset: "scan_where w rs = Inr kept \<Longrightarrow> set kept \<subseteq> {r \<in> set rs. w r = Inr True}"
proof (induction rs arbitrary: kept)
  case Nil
  then show ?case by simp
next
  case (Cons r rs)
  then show ?case by (auto split: sum.splits if_splits)
qed

lemma inactive_not_listed:
  assumes "distinct (map mi_id (menu_items db))" "r \<in> set (menu_items db)" "mi_is_active r \<noteq> 1"
    and "list_items db category search = Inr rows"
  shows "mi_id r \<notin> fst ` set rows"
proof
  assume "mi_id r \<in> fst ` set rows"
  with assms(4) obtain kept x where k: "scan_where (item_where category search) (menu_items db) = Inr kept"
    and x: "x \<in> set kept" "mi_id x = mi_id r"
    by (auto simp: list_items_def split: sum.splits)
  from scan_where_subset [OF k] x(1)
  have x': "x \<in> set (menu_items db)" "item_where category search x = Inr True" by auto
  from x'(2) have act: "mi_is_active x = 1"
    by (auto simp: item_where_def split: if_splits)
  from assms(1) x'(1) assms(2) x(2) have "x = r"
    by (meson distinct_map inj_onD)
  with act assms(3) show False by simp
qed

text \<open>
  C10, as amended. \<^verbatim>\<open>create_order\<close> does not consult \<^verbatim>\<open>is_active\<close>: whatever the cart,
  rewriting the \<^verbatim>\<open>is_active\<close> column (for instance to 1 everywhere) changes neither the
  outcome nor any row \<^verbatim>\<open>create_order\<close> writes, so a cart is accepted or refused exactly
  as it would be if all its items were active. An item whose row is marked inactive is
  absent from every \<^verbatim>\<open>MenuRepo.list_items\<close> listing, yet its price is the row's stored
  price; and a cart whose item ids all have a row, active or not, whose quantities are
  all at least 1 and whose quantities, line totals and total are storable as 64-bit
  integers is accepted, every line priced at the stored price times the quantity.
\<close>

theorem create_order_ignores_active:
  assumes pk: "distinct (map mi_id (menu_items db))"
    and ids: "\<forall>p \<in> set cart. fst p \<in> mi_id ` set (menu_items db) \<and> 1 \<le> snd p \<and>
       storable (snd p) \<and> storable (current_price (menu_items db) (fst p) * snd p)"
    and tot: "storable (sum_list (map (\<lambda>(i, q). current_price (menu_items db) i * q) cart))"
  shows "(\<forall>f any_cart.
       create_order (reflag f db) now customer_name phone any_cart =
         (case create_order db now customer_name phone any_cart of
            (db', res) \<Rightarrow> (reflag f db', res))) \<and>
    (\<forall>r \<in> set (menu_items db). mi_is_active r \<noteq> 1 \<longrightarrow>
       current_price (menu_items db) (mi_id r) = mi_price r \<and>
       (\<forall>category search rows.
          list_items db category search = Inr rows \<longrightarrow> mi_id r \<notin> fst ` set rows)) \<and>
    (\<exists>db' order_id new_lines.
       create_order db now customer_name phone cart = (db', Inr order_id) \<and>
       orders db' = orders db @
         [\<lparr>o_id = order_id, o_customer_name = Some customer_name, o_phone = Some phone,
           o_total = sum_list (map (\<lambda>(i, q). current_price (menu_items db) i * q) cart),
           o_created_at = now\<rparr>] \<and>
       order_items db' = order_items db @ new_lines \<and>
       map (\<lambda>r. (oi_order_id r, oi_item_id r, oi_qty r, oi_line_total r)) new_lines =
         map (\<lambda>(i, q). (order_id, i, q, current_price (menu_items db) i * q)) cart)"
proof (intro conjI)
  show "\<forall>f any_cart.
       create_order (reflag f db) now customer_name phone any_cart =
         (case create_order db now customer_name phone any_cart of
            (db', res) \<Rightarrow> (reflag f db', res))"
    by (simp add: create_order_reflag)
next
  show "\<forall>r \<in> set (menu_items db). mi_is_active r \<noteq> 1 \<longrightarrow>
       current_price (menu_items db) (mi_id r) = mi_price r \<and>
       (\<forall>category search rows.
          list_items db category search = Inr rows \<longrightarrow> mi_id r \<notin> fst ` set rows)"
  proof (intro ballI impI conjI allI)
    fix r assume r: "r \<in> set (menu_items db)"
    show "current_price (menu_items db) (mi_id r) = mi_price r"
      using find_by_id [OF pk r] by (simp add: current_price_def select_price_def)
  next
    fix r category search rows
    assume "r \<in> set (menu_items db)" "mi_is_active r \<noteq> 1"
      "list_items db category search = Inr rows"
    then show "mi_id r \<notin> fst ` set rows"
      using inactive_not_listed [OF pk] by blast
  qed
next
  from create_order_known [OF ids tot, of now customer_name phone]
  show "\<exists>db' order_id new_lines.
       create_order db now customer_name phone cart = (db', Inr order_id) \<and>
       orders db' = orders db @
         [\<lparr>o_id = order_id, o_customer_name = Some customer_name, o_phone = Some phone,
           o_total = sum_list (map (\<lambda>(i, q). current_price (menu_items db) i * q) cart),
           o_created_at = now\<rparr>] \<and>
       order_items db' = order_items db @ new_lines \<and>
       map (\<lambda>r. (oi_order_id r, oi_item_id r, oi_qty r, oi_line_total r)) new_lines =
         map (\<lambda>(i, q). (order_id, i, q, current_price (menu_items db) i * q)) cart"
    by blast
qed

theorem create_order_ignores_active_witness:
  "(\<exists>db' order_id new_lines.
       create_order demo_store ''2025-01-10T12:00:00'' ''Ann'' ''0300'' [(1, 1), (2, 3)] =
         (db', Inr order_id) \<and>
       orders db' = orders demo_store @
         [\<lparr>o_id = order_id, o_customer_name = Some ''Ann'', o_phone = Some ''0300'',
           o_total = 2750, o_created_at = ''2025-01-10T12:00:00''\<rparr>] \<and>
       order_items db' = order_items demo_store @ new_lines \<and>
       map (\<lambda>r. (oi_order_id r, oi_item_id r, oi_qty r, oi_line_total r)) new_lines =
         [(order_id, 1, 1, 500), (order_id, 2, 3, 2250)]) \<and>
   list_items demo_store None [] = Inr [(1, ''Pizza Margherita'', ''Main'', 500, Some ''pizza.png.png'')] \<and>
   create_order (reflag (\<lambda>r. 1) demo_store) ''2025-01-10T12:00:00'' ''Ann'' ''0300'' [(2, 3)] =
     (case create_order demo_store ''2025-01-10T12:00:00'' ''Ann'' ''0300'' [(2, 3)] of
        (db', res) \<Rightarrow> (reflag (\<lambda>r. 1) db', res))"
proof -
  have pk: "distinct (map mi_id (menu_items demo_store))" by (simp add: demo_store_def)
  have ids: "\<forall>p \<in> set [(1 :: int, 1 :: int), (2, 3)].
      fst p \<in> mi_id ` set (menu_items demo_store) \<and> 1 \<le> snd p \<and> storable (snd p) \<and>
      storable (current_price (menu_items demo_store) (fst p) * snd p)"
    by (simp add: demo_store_def current_price_def select_price_def storable_def)
  have total: "sum_list (map (\<lambda>(i, q). current_price (menu_items demo_store) i * q)
      [(1, 1), (2, 3)]) = 2750"
    by (simp add: demo_store_def current_price_def select_price_def)
  have tot: "storable (sum_list (map (\<lambda>(i, q). current_price (menu_items demo_store) i * q)
      [(1, 1), (2, 3)]))"
    unfolding total by (simp add: storable_def)
  have lines: "map (\<lambda>(i, q). (order_id, i, q, current_price (menu_items demo_store) i * q))
      [(1, 1), (2, 3)] = [(order_id, 1, 1, 500), (order_id, 2, 3, 2250)]" for order_id :: int
    by (simp add: demo_store_def current_price_def select_price_def)
  have listing: "list_items demo_store None [] =
      Inr [(1, ''Pizza Margherita'', ''Main'', 500, Some ''pizza.png.png'')]"
    by (simp add: list_items_def item_where_def category_given_def demo_store_def)
  note t = create_order_ignores_active [OF pk ids tot, of "''2025-01-10T12:00:00''" "''Ann''" "''0300''"]
  from conjunct1 [OF t]
  have a: "create_order (reflag (\<lambda>r. 1) demo_store) ''2025-01-10T12:00:00'' ''Ann'' ''0300'' [(2, 3)] =
     (case create_order demo_store ''2025-01-10T12:00:00'' ''Ann'' ''0300'' [(2, 3)] of
        (db', res) \<Rightarrow> (reflag (\<lambda>r. 1) db', res))"
    by blast
  note b = conjunct2 [OF conjunct2 [OF t], unfolded lines total]
  show ?thesis by (rule conjI [OF b conjI [OF listing a]])
qed

text \<open>
  C10 as stated fails: the item exists and is inactive, but with a quantity below 1
  \<^verbatim>\<open>create_order\<close> does not succeed; \<^verbatim>\<open>CHECK(qty >= 1)\<close> refuses the line as it would for
  an active item.
\<close>

theorem create_order_inactive_zero_quantity_counterexample:
  "map (\<lambda>r. (mi_id r, mi_is_active r)) (menu_items demo_store) = [(1, 1), (2, 0)] \<and>
   create_order demo_store ''2025-01-10T12:00:00'' ''Ann'' ''0300'' [(2, 0)] =
     (demo_store, Inl (IntegrityError ''CHECK constraint failed: qty >= 1''))"
  by (simp add: demo_store_def create_order_def select_price_def insert_order_def
      insert_order_item_def storable_def Let_def)

section \<open>Properties of the Customer Directory\<close>

lemma select_customer_None_finds:
  "select_customer cs name phone = None \<longleftrightarrow>
     (phone = [] \<longrightarrow> find (\<lambda>r. c_name r = name \<and> c_phone r = None) cs = None) \<and>
     find (\<lambda>r. c_name r = name \<and> c_phone r = Some phone) cs = None"
  by (auto simp: select_customer_def split: option.splits if_splits)

lemma select_customer_None_unique:
  assumes "select_customer cs name phone = None"
  shows "\<not> list_ex (\<lambda>r. c_name r = name \<and> c_phone r = Some phone) cs"
proof -
  from assms have "find (\<lambda>r. c_name r = name \<and> c_phone r = Some phone) cs = None"
    by (simp add: select_customer_None_finds)
  then show ?thesis by (auto simp: list_ex_iff find_None_iff)
qed

lemma ensure_customer_found:
  "select_customer (customers db) name phone = Some i \<Longrightarrow>
   ensure_customer db name phone email = (db, Inr i)"
  by (simp add: ensure_customer_def)

lemma ensure_customer_new:
  assumes "select_customer (customers db) name phone = None"
  shows "ensure_customer db name phone email =
     (db\<lparr>customers := customers db @
            [\<lparr>c_id = next_rowid (seq_customers db) (map c_id (customers db)), c_name = name,
              c_phone = Some phone, c_email = Some email\<rparr>],
          seq_customers := next_rowid (seq_customers db) (map c_id (customers db))\<rparr>,
      Inr (next_rowid (seq_customers db) (map c_id (customers db))))"
  using assms select_customer_None_unique [OF assms]
  by (simp add: ensure_customer_def insert_customer_def Let_def)

lemma find_append_None: "find P xs = None \<Longrightarrow> find P (xs @ ys) = find P ys"
  by (induction xs) (auto split: if_splits)

lemma select_customer_after_insert:
  assumes "select_customer cs name phone = None"
  shows "select_customer (cs @ [\<lparr>c_id = i, c_name = name, c_phone = Some phone, c_email = e\<rparr>])
           name phone = Some i"
proof -
  from assms have n: "phone = [] \<Longrightarrow> find (\<lambda>r. c_name r = name \<and> c_phone r = None) cs = None"
    and s: "find (\<lambda>r. c_name r = name \<and> c_phone r = Some phone) cs = None"
    by (simp_all add: select_customer_None_finds)
  show ?thesis
  proof (cases "phone = []")
    case True
    with n s show ?thesis by (simp add: select_customer_def find_append_None)
  next
    case False
    with s show ?thesis by (simp add: select_customer_def find_append_None)
  qed
qed

lemma select_customer_Some_row:
  "select_customer cs name phone = Some i \<Longrightarrow>
   \<exists>r \<in> set cs. c_id r = i \<and> c_name r = name \<and> ifnull (c_phone r) [] = phone"
proof -
  assume "select_customer cs name phone = Some i"
  then obtain r where "c_id r = i"
    and "(phone = [] \<and> find (\<lambda>r. c_name r = name \<and> c_phone r = None) cs = Some r) \<or>
         find (\<lambda>r. c_name r = name \<and> c_phone r = Some phone) cs = Some r"
    by (auto simp: select_customer_def split: option.splits if_splits)
  then have "r \<in> set cs \<and> c_id r = i \<and> c_name r = name \<and> ifnull (c_phone r) [] = phone"
    by (auto simp: find_Some_iff ifnull_def)
  then show ?thesis by blast
qed

text \<open>
  C5. \<^verbatim>\<open>ensure_customer\<close> is idempotent. Whatever the store and the (name, phone) pair,
  the call returns an identity, a second call on the resulting store returns the same
  identity and leaves that store as it is (no insert), and the first call adds exactly
  one \<^verbatim>\<open>customers\<close> row when no row matched the pair and none when one did: two calls
  create one row in total, never two.
\<close>

theorem ensure_customer_idempotent:
  "\<exists>db1 i.
     ensure_customer db name phone email = (db1, Inr i) \<and>
     ensure_customer db1 name phone email' = (db1, Inr i) \<and>
     customers db1 = customers db @
       (if select_customer (customers db) name phone = None
        then [\<lparr>c_id = i, c_name = name, c_phone = Some phone, c_email = Some email\<rparr>]
        else []) \<and>
     (\<exists>r \<in> set (customers db1). c_id r = i \<and> c_name r = name \<and> ifnull (c_phone r) [] = phone)"
proof (cases "select_customer (customers db) name phone")
  case None
  define i where "i = next_rowid (seq_customers db) (map c_id (customers db))"
  define row where "row = \<lparr>c_id = i, c_name = name, c_phone = Some phone, c_email = Some email\<rparr>"
  define db1 where "db1 = db\<lparr>customers := customers db @ [row], seq_customers := i\<rparr>"
  have first: "ensure_customer db name phone email = (db1, Inr i)"
    using ensure_customer_new [OF None, of email] by (simp add: db1_def row_def i_def)
  have cs: "customers db1 = customers db @ [row]" by (simp add: db1_def)
  have "select_customer (customers db1) name phone = Some i"
    unfolding cs row_def by (rule select_customer_after_insert [OF None])
  then have second: "ensure_customer db1 name phone email' = (db1, Inr i)"
    by (rule ensure_customer_found)
  have ex: "\<exists>r \<in> set (customers db1). c_id r = i \<and> c_name r = name \<and> ifnull (c_phone r) [] = phone"
    unfolding cs by (simp add: row_def ifnull_def)
  show ?thesis
    apply (rule exI [of _ db1])
    apply (rule exI [of _ i])
    using first second cs ex None by (simp add: row_def)
next
  case (Some i)
  have "ensure_customer db name phone email = (db, Inr i)"
    and "ensure_customer db name phone email' = (db, Inr i)"
    using Some by (simp_all add: ensure_customer_found)
  moreover have "\<exists>r \<in> set (customers db). c_id r = i \<and> c_name r = name \<and> ifnull (c_phone r) [] = phone"
    by (rule select_customer_Some_row [OF Some])
  ultimately show ?thesis using Some by auto
qed

theorem ensure_customer_idempotent_witness:
  "ensure_customer demo_store ''Ann'' ''0300'' [] =
     (demo_store\<lparr>customers := [\<lparr>c_id = 1, c_name = ''Ann'', c_phone = Some ''0300'', c_email = Some []\<rparr>],
                 seq_customers := 1\<rparr>, Inr 1) \<and>
   ensure_customer (fst (ensure_customer demo_store ''Ann'' ''0300'' [])) ''Ann'' ''0300'' [] =
     (fst (ensure_customer demo_store ''Ann'' ''0300'' []), Inr 1)"
proof -
  have e: "ensure_customer demo_store ''Ann'' ''0300'' [] =
     (demo_store\<lparr>customers := [\<lparr>c_id = 1, c_name = ''Ann'', c_phone = Some ''0300'', c_email = Some []\<rparr>],
                 seq_customers := 1\<rparr>, Inr 1)"
    by (simp add: demo_store_def ensure_customer_def select_customer_def insert_customer_def
        next_rowid_def Let_def)
  from ensure_customer_idempotent [of demo_store "''Ann''" "''0300''" "[]" "[]"]
  show ?thesis unfolding e by auto
qed

section \<open>Properties of the Booking Ledger\<close>

text \<open>
  C4. For check-in and check-out strings that parse as dates and whose difference in
  whole days is zero or negative, \<^verbatim>\<open>create_booking\<close> raises "Check-out must be after
  check-in" and the store after the call is the store before it, whatever the room,
  the customer and the state of the store: no booking row, no customer row. The
  instance below is check-in = check-out = 2025-01-10.
\<close>

theorem create_booking_nonpositive_nights:
  assumes "fromisoformat check_in = Inr d1"
    and "fromisoformat check_out = Inr d2"
    and "nights_between d1 d2 \<le> 0"
  shows "create_booking db fault now customer_name phone room_id check_in check_out =
           (db, Inl CheckoutNotAfterCheckin)"
  using assms by (simp add: create_booking_def)

theorem create_booking_nonpositive_nights_witness:
  "create_booking demo_store None ''2025-01-09T08:00:00'' ''Ann'' ''0300'' 2 ''2025-01-10'' ''2025-01-10'' =
     (demo_store, Inl CheckoutNotAfterCheckin)"
proof -
  have p: "fromisoformat ''2025-01-10'' = Inr \<lparr>d_year = 2025, d_month = 1, d_day = 10\<rparr>"
    by (simp add: fromisoformat_def days_in_month_def)
  have n: "nights_between \<lparr>d_year = 2025, d_month = 1, d_day = 10\<rparr>
             \<lparr>d_year = 2025, d_month = 1, d_day = 10\<rparr> \<le> 0"
    by (simp add: nights_between_def)
  show ?thesis by (rule create_booking_nonpositive_nights [OF p p n])
qed

lemma ensure_customer_result:
  "\<exists>db1 i. ensure_customer db name phone email = (db1, Inr i) \<and>
     i \<in> c_id ` set (customers db1) \<and>
     db1\<lparr>customers := customers db, seq_customers := seq_customers db\<rparr> = db \<and>
     customers db1 = customers db @
       (if select_customer (customers db) name phone = None
        then [\<lparr>c_id = i, c_name = name, c_phone = Some phone, c_email = Some email\<rparr>]
        else [])"
proof (cases "select_customer (customers db) name phone")
  case None
  show ?thesis
    unfolding ensure_customer_new [OF None] using None by simp
next
  case (Some i)
  from select_customer_Some_row [OF Some] have "i \<in> c_id ` set (customers db)" by auto
  then show ?thesis
    unfolding ensure_customer_found [OF Some] using Some by simp
qed

lemma select_room_price_Some:
  "select_room_price rs room_id = Some price \<Longrightarrow> room_id \<in> r_id ` set rs"
  by (auto simp: select_room_price_def find_Some_iff)

lemma create_booking_before_resolution:
  assumes "\<not> passes_checks db room_id check_in check_out"
  shows "\<exists>e. create_booking db fault now customer_name phone room_id check_in check_out = (db, Inl e)"
  using assms
  by (auto simp: passes_checks_def create_booking_def Let_def split: sum.splits option.splits)

lemma create_booking_after_resolution:
  assumes "passes_checks db room_id check_in check_out"
  shows "\<exists>db1 cust_id d1 d2 price.
    ensure_customer db customer_name phone [] = (db1, Inr cust_id) \<and>
    fromisoformat check_in = Inr d1 \<and> fromisoformat check_out = Inr d2 \<and>
    select_room_price (rooms db) room_id = Some price \<and>
    create_booking db fault now customer_name phone room_id check_in check_out =
      (case fault of
         Some e \<Rightarrow> (db1, Inl e)
       | None \<Rightarrow>
          (db1\<lparr>bookings := bookings db1 @
                 [\<lparr>b_id = next_rowid (seq_bookings db1) (map b_id (bookings db1)),
                   b_customer_id = cust_id, b_room_id = room_id, b_check_in = check_in,
                   b_check_out = check_out, b_nights = nights_between d1 d2,
                   b_total = price * nights_between d1 d2, b_created_at = now,
                   b_status = ''Booked''\<rparr>],
               seq_bookings := next_rowid (seq_bookings db1) (map b_id (bookings db1))\<rparr>,
           Inr (next_rowid (seq_bookings db1) (map b_id (bookings db1)))))"
proof -
  from assms obtain d1 d2 price where
    d: "fromisoformat check_in = Inr d1" "fromisoformat check_out = Inr d2"
       "0 < nights_between d1 d2" "select_room_price (rooms db) room_id = Some price"
    by (auto simp: passes_checks_def split: sum.splits)
  from ensure_customer_result [of db customer_name phone "[]"] obtain db1 cust_id where
    e: "ensure_customer db customer_name phone [] = (db1, Inr cust_id)"
       "cust_id \<in> c_id ` set (customers db1)"
       "db1\<lparr>customers := customers db, seq_customers := seq_customers db\<rparr> = db"
    by blast
  have "rooms db1 = rooms db" using arg_cong [OF e(3), of rooms] by simp
  with select_room_price_Some [OF d(4)] have "room_id \<in> r_id ` set (rooms db1)" by simp
  with e(2) have fk: "\<not> (cust_id \<notin> set (map c_id (customers db1)) \<or> room_id \<notin> set (map r_id (rooms db1)))"
    by simp
  show ?thesis
    apply (rule exI [of _ db1], rule exI [of _ cust_id], rule exI [of _ d1], rule exI [of _ d2],
        rule exI [of _ price])
    using d e(1) fk
    by (simp add: create_booking_def insert_booking_def Let_def split: option.split)
qed

text \<open>
  C3, as amended. A failing \<^verbatim>\<open>create_booking\<close> never leaves a booking row, and it leaves
  every table but \<^verbatim>\<open>customers\<close> as it was. When the failure comes before customer
  resolution (a date that does not parse, a check-out not after the check-in, an unknown
  room) the whole store is unchanged. When it comes after customer resolution, which
  is when the \<^verbatim>\<open>INSERT\<close> itself raises, the committed store is the one
  \<^verbatim>\<open>ensure_customer\<close> left: a customer row created for a new (name, phone) pair stays.
\<close>

theorem create_booking_failure_store:
  assumes "create_booking db fault now customer_name phone room_id check_in check_out = (db', Inl e)"
  shows "bookings db' = bookings db \<and>
     db'\<lparr>customers := customers db, seq_customers := seq_customers db\<rparr> = db \<and>
     (if passes_checks db room_id check_in check_out
      then fault = Some e \<and> db' = fst (ensure_customer db customer_name phone []) \<and>
           customers db' = customers db @
             (if select_customer (customers db) customer_name phone = None
              then [\<lparr>c_id = next_rowid (seq_customers db) (map c_id (customers db)),
                      c_name = customer_name, c_phone = Some phone, c_email = Some []\<rparr>]
              else [])
      else db' = db)"
proof (cases "passes_checks db room_id check_in check_out")
  case False
  from create_booking_before_resolution [OF False, of fault now customer_name phone] assms
  have "db' = db" by auto
  with False show ?thesis by simp
next
  case True
  from create_booking_after_resolution [OF True, of customer_name phone fault now]
  obtain db1 cust_id d1 d2 price where
    r: "ensure_customer db customer_name phone [] = (db1, Inr cust_id)"
       "create_booking db fault now customer_name phone room_id check_in check_out =
      (case fault of
         Some e \<Rightarrow> (db1, Inl e)
       | None \<Rightarrow>
          (db1\<lparr>bookings := bookings db1 @
                 [\<lparr>b_id = next_rowid (seq_bookings db1) (map b_id (bookings db1)),
                   b_customer_id = cust_id, b_room_id = room_id, b_check_in = check_in,
                   b_check_out = check_out, b_nights = nights_between d1 d2,
                   b_total = price * nights_between d1 d2, b_created_at = now,
                   b_status = ''Booked''\<rparr>],
               seq_bookings := next_rowid (seq_bookings db1) (map b_id (bookings db1))\<rparr>,
           Inr (next_rowid (seq_bookings db1) (map b_id (bookings db1)))))"
    by blast
  from r(2) assms have f: "fault = Some e" and db': "db' = db1"
    by (cases fault; simp)+
  from ensure_customer_result [of db customer_name phone "[]"] r(1)
  have k: "db1\<lparr>customers := customers db, seq_customers := seq_customers db\<rparr> = db"
    and cs: "customers db1 = customers db @
       (if select_customer (customers db) customer_name phone = None
        then [\<lparr>c_id = cust_id, c_name = customer_name, c_phone = Some phone, c_email = Some []\<rparr>]
        else [])"
    by auto
  have id: "cust_id = next_rowid (seq_customers db) (map c_id (customers db))"
    if "select_customer (customers db) customer_name phone = None"
    using ensure_customer_new [OF that, of "[]"] r(1) by simp
  have b: "bookings db1 = bookings db" using arg_cong [OF k, of bookings] by simp
  show ?thesis using True f db' k cs b r(1) id by auto
qed

theorem create_booking_failure_store_witness:
  "bookings (fst (create_booking demo_store (Some (OperationalError ''database is locked''))
       ''2025-01-09T08:00:00'' ''Bob'' ''0311'' 1 ''2025-01-10'' ''2025-01-13'')) = [] \<and>
   customers (fst (create_booking demo_store (Some (OperationalError ''database is locked''))
       ''2025-01-09T08:00:00'' ''Bob'' ''0311'' 1 ''2025-01-10'' ''2025-01-13'')) =
     [\<lparr>c_id = 1, c_name = ''Bob'', c_phone = Some ''0311'', c_email = Some []\<rparr>]"
proof -
  define db' where "db' = demo_store\<lparr>customers :=
      [\<lparr>c_id = 1, c_name = ''Bob'', c_phone = Some ''0311'', c_email = Some []\<rparr>], seq_customers := 1\<rparr>"
  have run: "create_booking demo_store (Some (OperationalError ''database is locked''))
       ''2025-01-09T08:00:00'' ''Bob'' ''0311'' 1 ''2025-01-10'' ''2025-01-13'' =
       (db', Inl (OperationalError ''database is locked''))"
    by (simp add: db'_def create_booking_def fromisoformat_def days_in_month_def nights_between_def
        toordinal_def days_before_year_def days_before_month_def select_room_price_def
        ensure_customer_def select_customer_def insert_customer_def insert_booking_def
        next_rowid_def demo_store_def Let_def)
  have checks: "passes_checks demo_store 1 ''2025-01-10'' ''2025-01-13''"
    by (simp add: passes_checks_def fromisoformat_def days_in_month_def nights_between_def
        toordinal_def days_before_year_def days_before_month_def select_room_price_def
        demo_store_def)
  have new: "select_customer (customers demo_store) ''Bob'' ''0311'' = None"
    by (simp add: select_customer_def demo_store_def)
  have id: "next_rowid (seq_customers demo_store) (map c_id (customers demo_store)) = 1"
    by (simp add: next_rowid_def demo_store_def)
  have b: "bookings demo_store = []" and c: "customers demo_store = []"
    by (simp_all add: demo_store_def)
  note t = create_booking_failure_store [OF run]
  note t1 = conjunct1 [OF t]
  note t3 = conjunct2 [OF conjunct2 [OF t], unfolded if_P [OF checks]]
  note t5 = conjunct2 [OF conjunct2 [OF t3], unfolded if_P [OF new] id]
  show ?thesis unfolding run fst_conv using t1 t5 by (simp add: b c)
qed

text \<open>
  C3 as stated fails: the \<^verbatim>\<open>INSERT\<close> raises after customer resolution, and the store
  after the call holds the new customer row.
\<close>

theorem create_booking_committed_customer_counterexample:
  "create_booking demo_store (Some (OperationalError ''disk I/O error''))
       ''2025-01-09T08:00:00'' ''Ann'' ''0300'' 2 ''2025-01-10'' ''2025-01-13'' =
     (demo_store\<lparr>customers :=
         [\<lparr>c_id = 1, c_name = ''Ann'', c_phone = Some ''0300'', c_email = Some []\<rparr>],
        seq_customers := 1\<rparr>, Inl (OperationalError ''disk I/O error'')) \<and>
   demo_store\<lparr>customers :=
         [\<lparr>c_id = 1, c_name = ''Ann'', c_phone = Some ''0300'', c_email = Some []\<rparr>],
        seq_customers := 1\<rparr> \<noteq> demo_store"
proof -
  have run: "create_booking demo_store (Some (OperationalError ''disk I/O error''))
       ''2025-01-09T08:00:00'' ''Ann'' ''0300'' 2 ''2025-01-10'' ''2025-01-13'' =
     (demo_store\<lparr>customers :=
         [\<lparr>c_id = 1, c_name = ''Ann'', c_phone = Some ''0300'', c_email = Some []\<rparr>],
        seq_customers := 1\<rparr>, Inl (OperationalError ''disk I/O error''))"
    by (simp add: create_booking_def fromisoformat_def days_in_month_def nights_between_def
        toordinal_def days_before_year_def days_before_month_def select_room_price_def
        ensure_customer_def select_customer_def insert_customer_def insert_booking_def
        next_rowid_def demo_store_def Let_def)
  have "customers (demo_store\<lparr>customers :=
         [\<lparr>c_id = 1, c_name = ''Ann'', c_phone = Some ''0300'', c_email = Some []\<rparr>],
        seq_customers := 1\<rparr>) \<noteq> customers demo_store"
    by (simp add: demo_store_def)
  then have "demo_store\<lparr>customers :=
         [\<lparr>c_id = 1, c_name = ''Ann'', c_phone = Some ''0300'', c_email = Some []\<rparr>],
        seq_customers := 1\<rparr> \<noteq> demo_store"
    by metis
  with run show ?thesis by simp
qed

section \<open>Properties of the Support Ticket Ledger\<close>

text \<open>A text is empty after \<^verbatim>\<open>strip()\<close> exactly when all its characters are whitespace.\<close>

lemma strip_empty_iff: "strip s = [] \<longleftrightarrow> (\<forall>c \<in> set s. is_space c)"
proof -
  have "(\<forall>x \<in> set (dropWhile is_space s). is_space x) \<longleftrightarrow> dropWhile is_space s = []"
  proof
    assume a: "\<forall>x \<in> set (dropWhile is_space s). is_space x"
    show "dropWhile is_space s = []"
    proof (rule ccontr)
      assume n: "dropWhile is_space s \<noteq> []"
      then have "\<not> is_space (hd (dropWhile is_space s))" by (rule hd_dropWhile)
      moreover from n have "hd (dropWhile is_space s) \<in> set (dropWhile is_space s)" by simp
      ultimately show False using a by blast
    qed
  next
    assume e: "dropWhile is_space s = []"
    show "\<forall>x \<in> set (dropWhile is_space s). is_space x" unfolding e by simp
  qed
  then show ?thesis by (simp add: strip_def dropWhile_eq_Nil_conv)
qed

text \<open>
  C8, as amended. The subject check belongs to the form's handler
  \<^verbatim>\<open>SupportFrame._create_ticket\<close>: for a subject that is empty after trimming, the handler
  raises "Subject is required" before it calls the ledger, so the store is unchanged: no
  ticket row and no customer resolution.
\<close>

theorem support_form_subject_required:
  assumes "strip t_subject = []"
  shows "SupportFrame_create_ticket db now t_name t_phone cat_var t_subject t_message =
           (db, Inl SubjectRequired)"
  using assms by (simp add: SupportFrame_create_ticket_def Let_def)

theorem support_form_subject_required_witness:
  "SupportFrame_create_ticket demo_store ''2025-01-09T08:00:00'' ''Ann'' ''0300'' ''Other'' ''   '' ''hello'' =
     (demo_store, Inl SubjectRequired)"
proof -
  have "strip ''   '' = []" by (simp add: strip_def is_space_def)
  then show ?thesis by (rule support_form_subject_required)
qed

text \<open>
  C8 as stated fails for the ledger operation: \<^verbatim>\<open>TicketRepo.create_ticket\<close> with an empty
  subject raises nothing; it resolves (here creates) the customer and commits a ticket
  whose subject is the empty string.
\<close>

theorem create_ticket_empty_subject_counterexample:
  "strip [] = [] \<and>
   create_ticket demo_store ''2025-01-09T08:00:00'' ''Ann'' ''0300'' ''Other'' [] ''hello'' =
     (demo_store\<lparr>customers :=
          [\<lparr>c_id = 1, c_name = ''Ann'', c_phone = Some ''0300'', c_email = Some []\<rparr>],
        tickets :=
          [\<lparr>tk_id = 1, tk_customer_id = Some 1, tk_category = Some ''Other'', tk_subject = [],
            tk_message = Some ''hello'', tk_status = ''Open'',
            tk_created_at = ''2025-01-09T08:00:00''\<rparr>],
        seq_customers := 1, seq_tickets := 1\<rparr>, Inr 1)"
  by (simp add: strip_def create_ticket_def ensure_customer_def select_customer_def
      insert_customer_def insert_ticket_def next_rowid_def demo_store_def Let_def)

section \<open>Properties of the Image Path Resolver\<close>

lemma first_existing_find:
  "first_existing assets_dir exists vs = find exists (map (join assets_dir) vs)"
  by (induction vs) (simp_all add: Let_def)

lemma resolve_refines_spec:
  "resolve_image_path assets_dir exists hint = spec_resolve assets_dir exists hint"
  by (simp add: resolve_image_path_def spec_resolve_def spec_variants_def first_existing_find
      Let_def split: option.split)

lemma splitext_pizza: "splitext ''pizza.png'' = (''pizza'', ''.png'')"
  by (simp add: splitext_def rfind_def upt_rec Let_def)

lemma join_relative: "\<not> isabs b \<Longrightarrow> join a b = (if a = [] \<or> last a = CHR ''/'' then a else a @ ''/'') @ b"
  by (simp add: join_def)

text \<open>
  C6. \<^verbatim>\<open>resolve_image_path\<close> is the ordered first-match search the specification
  describes (\<open>spec_resolve\<close>; the stem is \<^verbatim>\<open>os.path.splitext(hint)[0]\<close>), for every assets
  root, file system and hint. In particular, when the only file that exists is
  \<^verbatim>\<open>pizza.png.png\<close> in the assets root, the hint \<^verbatim>\<open>pizza.png\<close> resolves to that file's
  path, through the last variant.
\<close>

theorem resolve_image_path_first_match:
  "resolve_image_path assets_dir exists hint = spec_resolve assets_dir exists hint \<and>
   ((\<forall>f. exists f = (f = join assets_dir ''pizza.png.png'')) \<longrightarrow>
      resolve_image_path assets_dir exists (Some ''pizza.png'') =
        Some (join assets_dir ''pizza.png.png''))"
proof (intro conjI impI)
  show "resolve_image_path assets_dir exists hint = spec_resolve assets_dir exists hint"
    by (rule resolve_refines_spec)
next
  assume ex: "\<forall>f. exists f = (f = join assets_dir ''pizza.png.png'')"
  have j: "join assets_dir ''pizza.png'' \<noteq> join assets_dir ''pizza.png.png''"
    "join assets_dir ''pizza.jpg'' \<noteq> join assets_dir ''pizza.png.png''"
    "join assets_dir ''pizza.jpeg'' \<noteq> join assets_dir ''pizza.png.png''"
    by (simp_all add: join_relative isabs_def)
  have abs: "\<not> isabs ''pizza.png''" by (simp add: isabs_def)
  show "resolve_image_path assets_dir exists (Some ''pizza.png'') =
        Some (join assets_dir ''pizza.png.png'')"
    unfolding resolve_refines_spec
    using j abs by (simp add: spec_resolve_def spec_variants_def splitext_pizza ex)
qed

theorem resolve_image_path_first_match_witness:
  "resolve_image_path ''/app/assets'' (\<lambda>f. f = ''/app/assets/pizza.png.png'') (Some ''pizza.png'') =
     Some ''/app/assets/pizza.png.png''"
proof -
  have j: "join ''/app/assets'' ''pizza.png.png'' = ''/app/assets/pizza.png.png''"
    by (simp add: join_def isabs_def)
  have "\<forall>f. (f = ''/app/assets/pizza.png.png'') = (f = join ''/app/assets'' ''pizza.png.png'')"
    unfolding j by simp
  with resolve_image_path_first_match
    [of "''/app/assets''" "\<lambda>f. f = ''/app/assets/pizza.png.png''" None]
  show ?thesis unfolding j by blast
qed

section \<open>Properties of \<^verbatim>\<open>list_orders\<close>\<close>

text \<open>\<open>contains_substring\<close> is the substring relation.\<close>

lemma starts_with_iff: "starts_with f t \<longleftrightarrow> (\<exists>v. t = f @ v)"
proof (induction f arbitrary: t)
  case Nil
  then show ?case by simp
next
  case (Cons a f)
  then show ?case by (cases t) auto
qed

lemma contains_substring_iff: "contains_substring f t \<longleftrightarrow> (\<exists>u v. t = u @ f @ v)"
proof (induction t)
  case Nil
  then show ?case by auto
next
  case (Cons c t)
  show ?case
  proof
    assume "contains_substring f (c # t)"
    then consider "starts_with f (c # t)" | "contains_substring f t" by auto
    then show "\<exists>u v. c # t = u @ f @ v"
    proof cases
      case 1
      then obtain v where "c # t = f @ v" by (auto simp: starts_with_iff)
      then have "c # t = [] @ f @ v" by simp
      then show ?thesis by blast
    next
      case 2
      with Cons.IH obtain u v where "t = u @ f @ v" by blast
      then have "c # t = (c # u) @ f @ v" by simp
      then show ?thesis by blast
    qed
  next
    assume "\<exists>u v. c # t = u @ f @ v"
    then obtain u v where e: "c # t = u @ f @ v" by blast
    show "contains_substring f (c # t)"
    proof (cases u)
      case Nil
      with e have "starts_with f (c # t)" by (auto simp: starts_with_iff)
      then show ?thesis by simp
    next
      case (Cons a u')
      with e have "t = u' @ f @ v" by simp
      with Cons.IH have "contains_substring f t" by blast
      then show ?thesis by simp
    qed
  qed
qed

lemma like_match_percent: "like_match ''%'' t"
  by (induction t) simp_all

lemma like_match_prefix:
  "\<forall>c \<in> set f. c \<noteq> CHR ''%'' \<and> c \<noteq> CHR ''_'' \<Longrightarrow>
   like_match (f @ ''%'') t = starts_with (map ascii_lower f) (map ascii_lower t)"
proof (induction f arbitrary: t)
  case Nil
  then show ?case by (simp add: like_match_percent)
next
  case (Cons a f)
  then have a: "a \<noteq> CHR ''%''" "a \<noteq> CHR ''_''"
    and f: "\<forall>c \<in> set f. c \<noteq> CHR ''%'' \<and> c \<noteq> CHR ''_''"
    by auto
  show ?case
  proof (cases t)
    case Nil
    then show ?thesis using a by simp
  next
    case (Cons c cs)
    then show ?thesis using a Cons.IH [OF f, of cs] by simp
  qed
qed

lemma like_match_wrapped:
  assumes "\<forall>c \<in> set f. c \<noteq> CHR ''%'' \<and> c \<noteq> CHR ''_''"
  shows "like_match (wrap_wildcards f) t = icontains f t"
proof (induction t)
  case Nil
  have "like_match (CHR ''%'' # f @ ''%'') [] = like_match (f @ ''%'') []" by simp
  also have "\<dots> = starts_with (map ascii_lower f) []"
    using like_match_prefix [OF assms, of "[]"] by simp
  also have "\<dots> = (f = [])" by (cases f) simp_all
  finally show ?case by (simp add: wrap_wildcards_def icontains_def)
next
  case (Cons c cs)
  have "like_match (CHR ''%'' # f @ ''%'') (c # cs) =
        (like_match (f @ ''%'') (c # cs) \<or> like_match (CHR ''%'' # f @ ''%'') cs)"
    by simp
  then show ?case
    using Cons.IH like_match_prefix [OF assms, of "c # cs"]
    by (simp add: wrap_wildcards_def icontains_def)
qed

lemma sql_like_plain:
  assumes "plain_filter f"
  shows "sql_like (wrap_wildcards f) t = icontains f (c_string t)"
proof -
  from assms have w: "\<forall>c \<in> set f. c \<noteq> CHR ''%'' \<and> c \<noteq> CHR ''_''"
    and z: "\<forall>c \<in> set f. c \<noteq> CHR 0x00"
    by (auto simp: plain_filter_def list_ex_iff)
  from z have "c_string (wrap_wildcards f) = wrap_wildcards f"
    by (simp add: c_string_def wrap_wildcards_def takeWhile_eq_all_conv)
  then show ?thesis by (simp add: sql_like_def like_match_wrapped [OF w])
qed

lemma scan_where_total:
  "\<forall>r \<in> set rs. w r = Inr (P r) \<Longrightarrow> scan_where w rs = Inr (filter P rs)"
  by (induction rs) simp_all

lemma scan_where_Inr:
  "scan_where w rs = Inr kept \<Longrightarrow>
   kept = filter (\<lambda>r. w r = Inr True) rs \<and> (\<forall>r \<in> set rs. \<exists>b. w r = Inr b)"
proof (induction rs arbitrary: kept)
  case Nil
  then show ?case by simp
next
  case (Cons r rs)
  then show ?case by (auto split: sum.splits if_splits)
qed

lemma order_where_within_limit:
  "\<not> filter_too_long name \<Longrightarrow> \<not> filter_too_long phone \<Longrightarrow>
   order_where name phone r = Inr (order_name_cond name r \<and> order_phone_cond phone r)"
  by (simp add: order_where_def)

lemma order_where_True_iff:
  assumes "order_where name phone r = Inr b"
  shows "order_where name phone r = Inr True \<longleftrightarrow> order_name_cond name r \<and> order_phone_cond phone r"
  using assms by (auto simp: order_where_def split: if_splits)

lemma list_orders_general:
  assumes "list_orders db name phone = Inr rows"
  shows "sorted (rev (map fst rows)) \<and>
     rows = map order_report_row
       (filter (\<lambda>r. order_name_cond name r \<and> order_phone_cond phone r)
          (rev (sort_key o_id (orders db))))"
proof -
  let ?w = "order_where name phone"
  from assms obtain kept where k: "scan_where ?w (rev (sort_key o_id (orders db))) = Inr kept"
    and rows: "rows = map order_report_row kept"
    by (auto simp: list_orders_def split: sum.splits)
  from scan_where_Inr [OF k]
  have kept: "kept = filter (\<lambda>r. ?w r = Inr True) (rev (sort_key o_id (orders db)))"
    and ok: "\<forall>r \<in> set (orders db). \<exists>b. ?w r = Inr b"
    by auto
  have "rev (map fst rows) = map o_id (filter (\<lambda>r. ?w r = Inr True) (sort_key o_id (orders db)))"
    unfolding rows kept by (simp add: rev_map rev_filter comp_def order_report_row_def)
  moreover have "sorted (map o_id (filter (\<lambda>r. ?w r = Inr True) (sort_key o_id (orders db))))"
    by (rule sorted_filter) (simp add: sorted_sort_key)
  ultimately have s: "sorted (rev (map fst rows))" by simp
  have eq: "(?w r = Inr True) = (order_name_cond name r \<and> order_phone_cond phone r)"
    if "r \<in> set (rev (sort_key o_id (orders db)))" for r
  proof -
    from ok that obtain b where "?w r = Inr b" by auto
    then show ?thesis by (rule order_where_True_iff)
  qed
  have "kept = filter (\<lambda>r. order_name_cond name r \<and> order_phone_cond phone r)
          (rev (sort_key o_id (orders db)))"
    unfolding kept by (rule filter_cong [OF refl]) (rule eq)
  with s rows show ?thesis by simp
qed

lemma list_orders_within_limit:
  assumes "\<not> filter_too_long name" and "\<not> filter_too_long phone"
  shows "list_orders db name phone =
     Inr (map order_report_row
       (filter (\<lambda>r. order_name_cond name r \<and> order_phone_cond phone r)
          (rev (sort_key o_id (orders db)))))"
proof -
  have "scan_where (order_where name phone) (rev (sort_key o_id (orders db))) =
      Inr (filter (\<lambda>r. order_name_cond name r \<and> order_phone_cond phone r)
        (rev (sort_key o_id (orders db))))"
    by (intro scan_where_total) (simp add: order_where_within_limit [OF assms])
  then show ?thesis by (simp add: list_orders_def)
qed

lemma list_orders_absent_filter:
  "list_orders db name phone = list_orders db (Some (ifnull name [])) (Some (ifnull phone []))"
proof -
  have "order_where name phone = order_where (Some (ifnull name [])) (Some (ifnull phone []))"
    by (rule ext)
      (simp add: order_where_def filter_too_long_def order_name_cond_def order_phone_cond_def
        ifnull_def split: option.split)
  then show ?thesis by (simp add: list_orders_def)
qed

lemma list_orders_plain:
  assumes "plain_filter nf" and "plain_filter pf"
  shows "list_orders db (Some nf) (Some pf) =
     Inr (map order_report_row (rev (sort_key o_id
       (filter (\<lambda>r. (nf = [] \<or> (case o_customer_name r of
                                    None \<Rightarrow> False
                                  | Some n \<Rightarrow> icontains nf (c_string n)))
                  \<and> (pf = [] \<or> icontains pf (c_string (ifnull (o_phone r) []))))
          (orders db)))))"
proof -
  let ?C = "\<lambda>r. (nf = [] \<or> (case o_customer_name r of
                                    None \<Rightarrow> False
                                  | Some n \<Rightarrow> icontains nf (c_string n)))
                  \<and> (pf = [] \<or> icontains pf (c_string (ifnull (o_phone r) [])))"
  have n: "order_name_cond (Some nf) r =
        (nf = [] \<or> (case o_customer_name r of None \<Rightarrow> False | Some n \<Rightarrow> icontains nf (c_string n)))" for r
    by (simp add: order_name_cond_def sql_like_plain [OF assms(1)] split: option.split)
  have p: "order_phone_cond (Some pf) r = (pf = [] \<or> icontains pf (c_string (ifnull (o_phone r) [])))" for r
    by (simp add: order_phone_cond_def sql_like_plain [OF assms(2)])
  have l: "\<not> filter_too_long (Some nf)" "\<not> filter_too_long (Some pf)"
    using assms by (simp_all add: plain_filter_def filter_too_long_def)
  have "order_where (Some nf) (Some pf) r = Inr (?C r)" for r
    unfolding order_where_within_limit [OF l] n p ..
  then have "scan_where (order_where (Some nf) (Some pf)) (rev (sort_key o_id (orders db))) =
      Inr (filter ?C (rev (sort_key o_id (orders db))))"
    by (intro scan_where_total) simp
  moreover have "filter ?C (rev (sort_key o_id (orders db))) = rev (sort_key o_id (filter ?C (orders db)))"
    by (simp add: rev_filter [symmetric] filter_sort)
  ultimately show ?thesis by (simp add: list_orders_def)
qed

text \<open>
  C7, as amended. Whatever the filters, the rows \<^verbatim>\<open>list_orders\<close> returns are in descending
  order of id and are exactly the orders that satisfy the \<^verbatim>\<open>LIKE\<close> conditions of the
  filters given, conjoined; it does return rows whenever no pattern is over the length
  limit; an absent filter is an empty one and imposes no condition.
  For filters that hold none of \<^verbatim>\<open>%\<close>, \<^verbatim>\<open>_\<close> and U+0000 (and are within the pattern length
  limit), the call succeeds and the rows returned are exactly the orders whose
  \<^verbatim>\<open>customer_name\<close> (which must not be \<^verbatim>\<open>NULL\<close>) contains the name filter and whose phone
  (\<^verbatim>\<open>NULL\<close> read as the empty text) contains the phone filter as a substring when ASCII
  letters are compared without regard to case, a stored text being read up to its first
  U+0000.
\<close>

theorem list_orders_like_filters:
  assumes "plain_filter nf" and "plain_filter pf"
  shows "(\<forall>name phone rows.
        list_orders db name phone = Inr rows \<longrightarrow>
          sorted (rev (map fst rows)) \<and>
          rows = map order_report_row
            (filter (\<lambda>r. order_name_cond name r \<and> order_phone_cond phone r)
               (rev (sort_key o_id (orders db))))) \<and>
     (\<forall>name phone.
        \<not> filter_too_long name \<longrightarrow> \<not> filter_too_long phone \<longrightarrow>
          (\<exists>rows. list_orders db name phone = Inr rows)) \<and>
     (\<forall>name phone.
        list_orders db name phone =
          list_orders db (Some (ifnull name [])) (Some (ifnull phone []))) \<and>
     list_orders db (Some nf) (Some pf) =
       Inr (map order_report_row (rev (sort_key o_id
         (filter (\<lambda>r. (nf = [] \<or> (case o_customer_name r of
                                      None \<Rightarrow> False
                                    | Some n \<Rightarrow> icontains nf (c_string n)))
                    \<and> (pf = [] \<or> icontains pf (c_string (ifnull (o_phone r) []))))
            (orders db)))))"
  using list_orders_general [of db] list_orders_within_limit [of _ _ db]
    list_orders_absent_filter [of db] list_orders_plain [OF assms, of db]
  by blast

lemma eq_char_of_iff: "(c = char_of (n::nat)) = (take_bit 8 n = of_char c)"
  using char_of_eq_iff [of n c] by auto

theorem list_orders_like_filters_witness:
  "list_orders demo_orders (Some ''ali'') (Some ''03'') =
     Inr [(1, ''2025-01-09T08:00:00'', ''Alice'', ''0300'', 1000)] \<and>
   list_orders demo_orders None None =
     Inr [(2, ''2025-01-09T09:30:00'', ''Bob'', ''0411'', 750),
          (1, ''2025-01-09T08:00:00'', ''Alice'', ''0300'', 1000)] \<and>
   sorted (rev (map fst [(2 :: int, ''2025-01-09T09:30:00'', ''Bob'', ''0411'', 750 :: int),
          (1, ''2025-01-09T08:00:00'', ''Alice'', ''0300'', 1000)])) \<and>
   list_orders demo_orders (Some ''ali'') (Some ''03'') =
     Inr (map order_report_row (rev (sort_key o_id
       (filter (\<lambda>r. (case o_customer_name r of None \<Rightarrow> False | Some n \<Rightarrow> icontains ''ali'' (c_string n))
                  \<and> icontains ''03'' (c_string (ifnull (o_phone r) [])))
          (orders demo_orders)))))"
proof -
  have n: "plain_filter ''ali''" and p: "plain_filter ''03''"
    by (simp_all add: plain_filter_def like_too_long_def utf8_length_def wrap_wildcards_def)
  have v: "list_orders demo_orders (Some ''ali'') (Some ''03'') =
     Inr [(1, ''2025-01-09T08:00:00'', ''Alice'', ''0300'', 1000)]"
    by (simp add: list_orders_def order_where_def filter_too_long_def like_too_long_def
        utf8_length_def order_name_cond_def order_phone_cond_def wrap_wildcards_def
        sql_like_def c_string_def order_report_row_def ifnull_def ascii_lower_def
        eq_char_of_iff demo_orders_def demo_store_def)
  have u: "list_orders demo_orders None None =
     Inr [(2, ''2025-01-09T09:30:00'', ''Bob'', ''0411'', 750),
          (1, ''2025-01-09T08:00:00'', ''Alice'', ''0300'', 1000)]"
    by (simp add: list_orders_def order_where_def filter_too_long_def order_name_cond_def
        order_phone_cond_def order_report_row_def ifnull_def demo_orders_def demo_store_def)
  note t = list_orders_like_filters [OF n p, of demo_orders]
  from conjunct1 [OF t] u
  have s: "sorted (rev (map fst [(2 :: int, ''2025-01-09T09:30:00'', ''Bob'', ''0411'', 750 :: int),
          (1, ''2025-01-09T08:00:00'', ''Alice'', ''0300'', 1000)]))"
    by blast
  from conjunct2 [OF conjunct2 [OF conjunct2 [OF t]]]
  have w: "list_orders demo_orders (Some ''ali'') (Some ''03'') =
     Inr (map order_report_row (rev (sort_key o_id
       (filter (\<lambda>r. (case o_customer_name r of None \<Rightarrow> False | Some n \<Rightarrow> icontains ''ali'' (c_string n))
                  \<and> icontains ''03'' (c_string (ifnull (o_phone r) [])))
          (orders demo_orders)))))"
    by simp
  from v u s w show ?thesis by blast
qed

text \<open>
  C7 as stated fails: the filter \<^verbatim>\<open>alice\<close> returns the order of \<^verbatim>\<open>Alice\<close>, although
  \<^verbatim>\<open>alice\<close> is not a substring of \<^verbatim>\<open>Alice\<close> when case counts.
\<close>

theorem list_orders_case_insensitive_counterexample:
  "list_orders demo_orders (Some ''alice'') None =
     Inr [(1, ''2025-01-09T08:00:00'', ''Alice'', ''0300'', 1000)] \<and>
   \<not> contains_substring ''alice'' ''Alice''"
  by (simp add: list_orders_def order_where_def filter_too_long_def like_too_long_def
      utf8_length_def order_name_cond_def order_phone_cond_def wrap_wildcards_def
      sql_like_def c_string_def order_report_row_def ifnull_def ascii_lower_def
      eq_char_of_iff demo_orders_def demo_store_def)

end
